theory Spec2Isabelle
  imports Complex_Main "HOL-Library.Sublist"
begin

section \<open>Values of the record store\<close>

text \<open>
  The handlers read plain rows of a relational store. A nullable column is an
  \<open>option\<close>. Integer columns are \<open>int\<close>; \<open>response_rate\<close> is a decimal column
  (it is written with two decimals by the response tracker) and is a \<open>rat\<close>.
  A timestamp column holds an ISO string: \<open>Instant t\<close> is one that parses to \<open>t\<close>
  milliseconds since the epoch, \<open>Invalid_Date\<close> is a non-empty string that
  \<open>new Date(...)\<close> cannot parse (its \<open>getTime()\<close> is NaN).
\<close>

datatype js_date = Instant int | Invalid_Date

record broker =
  b_id :: string
  carrier_id :: string
  company_name :: "string option"
  contact_name :: "string option"
  email :: "string option"
  phone :: "string option"
  credit_score :: "int option"
  days_to_pay :: "int option"
  response_rate :: "rat option"
  last_contact_date :: "js_date option"
  first_contact_date :: "js_date option"
  total_outreach_attempts :: "int option"
  total_responses :: "int option"
  total_loads_booked :: "int option"
  authority_status :: "string option"
  insurance_on_file :: "bool option"
  outreach_status :: "string option"
  address_state :: "string option"
  preferred_lanes :: "string list option"

text \<open>JavaScript truthiness of a nullable number, string and boolean.\<close>

fun truthy_num :: "int option \<Rightarrow> bool" where
  "truthy_num None = False"
| "truthy_num (Some n) = (n \<noteq> 0)"

fun truthy_str :: "string option \<Rightarrow> bool" where
  "truthy_str None = False"
| "truthy_str (Some s) = (s \<noteq> [])"

text \<open>\<open>!x\<close> on a nullable string.\<close>

fun falsy_str :: "string option \<Rightarrow> bool" where
  "falsy_str None = True"
| "falsy_str (Some s) = (s = [])"

fun truthy_bool :: "bool option \<Rightarrow> bool" where
  "truthy_bool None = False"
| "truthy_bool (Some b) = b"

text \<open>A falsy value read as absent: the number 0, the empty string.\<close>

definition nonzero :: "int option \<Rightarrow> int option" where
  "nonzero x = (case x of None \<Rightarrow> None | Some n \<Rightarrow> if n = 0 then None else Some n)"

definition nonempty :: "string option \<Rightarrow> string option" where
  "nonempty x = (case x of None \<Rightarrow> None | Some s \<Rightarrow> if s = [] then None else Some s)"

text \<open>
  Relational operators against a number literal. An absent operand (\<open>null\<close> or
  \<open>undefined\<close>) makes every comparison used below false: \<open>undefined\<close> converts
  to NaN, and \<open>null\<close> converts to 0, which is neither \<open>> k\<close> for \<open>k \<ge> 0\<close> nor
  \<open>\<ge> k\<close> for \<open>k \<ge> 1\<close>.
\<close>

fun gt_num :: "int option \<Rightarrow> int \<Rightarrow> bool" where
  "gt_num None k = False"
| "gt_num (Some n) k = (n > k)"

fun ge_num :: "int option \<Rightarrow> int \<Rightarrow> bool" where
  "ge_num None k = False"
| "ge_num (Some n) k = (n \<ge> k)"

fun gt_rat :: "rat option \<Rightarrow> rat \<Rightarrow> bool" where
  "gt_rat None k = False"
| "gt_rat (Some r) k = (r > k)"

text \<open>\<open><\<close> and \<open>\<le>\<close> occur only behind a truthiness test of the same operand,
  so their value at an absent operand is never read.\<close>

fun lt_num :: "int option \<Rightarrow> int \<Rightarrow> bool" where
  "lt_num None k = False"
| "lt_num (Some n) k = (n < k)"

fun le_num :: "int option \<Rightarrow> int \<Rightarrow> bool" where
  "le_num None k = False"
| "le_num (Some n) k = (n \<le> k)"

section \<open>RelationshipScorer: \<open>calculateRelationshipScore\<close> (api/broker-score.ts)\<close>

record breakdown =
  payment :: int
  responsiveness :: int
  revenue :: int
  reliability :: int

record relationship_score =
  score :: int
  breakdown :: breakdown

text \<open>Payment reliability: \<open>let paymentScore = 15; if (broker.credit_score) {...}
  if (broker.days_to_pay) {...}\<close>.\<close>

definition paymentScore :: "broker \<Rightarrow> int" where
  "paymentScore b =
    (let p0 = 15;
         p1 = (case credit_score b of
                 None \<Rightarrow> p0
               | Some cs \<Rightarrow>
                   if cs = 0 then p0
                   else if cs \<ge> 95 then 25
                   else if cs \<ge> 90 then 22
                   else if cs \<ge> 85 then 18
                   else if cs \<ge> 80 then 12
                   else 5)
     in (case days_to_pay b of
           None \<Rightarrow> p1
         | Some d \<Rightarrow>
             if d = 0 then p1
             else if d \<le> 7 then min 25 (p1 + 5)
             else if d \<le> 15 then min 25 (p1 + 3)
             else if d > 45 then max 0 (p1 - 5)
             else p1))"

text \<open>Responsiveness. \<open>broker.total_responses === 0\<close> is strict: an absent
  counter is not equal to 0. \<open>daysSince\<close> is
  \<open>Math.floor((Date.now() - new Date(d).getTime()) / 86400000)\<close>; on an
  unparseable date it is NaN and no branch of the adjustment is taken.\<close>

definition responseScore :: "int \<Rightarrow> broker \<Rightarrow> int" where
  "responseScore now b =
    (let r1 = (if gt_rat (response_rate b) 80 then 25
               else if gt_rat (response_rate b) 50 then 20
               else if gt_rat (response_rate b) 25 then 15
               else if gt_rat (response_rate b) 0 then 8
               else if gt_num (total_outreach_attempts b) 3 \<and> total_responses b = Some 0 then 2
               else 10)
     in (case last_contact_date b of
           None \<Rightarrow> r1
         | Some Invalid_Date \<Rightarrow> r1
         | Some (Instant t) \<Rightarrow>
             (let daysSince = (now - t) div (1000 * 60 * 60 * 24)
              in if daysSince \<le> 7 then min 25 (r1 + 5)
                 else if daysSince \<le> 30 then min 25 (r1 + 2)
                 else if daysSince > 90 then max 0 (r1 - 3)
                 else r1)))"

definition revenueScore :: "broker \<Rightarrow> int" where
  "revenueScore b =
    (if ge_num (total_loads_booked b) 10 then 25
     else if ge_num (total_loads_booked b) 5 then 20
     else if ge_num (total_loads_booked b) 2 then 15
     else if ge_num (total_loads_booked b) 1 then 10
     else 0)"

definition reliabilityScore :: "broker \<Rightarrow> int" where
  "reliabilityScore b =
    (let r0 = 10;
         r1 = (if authority_status b = Some ''active'' \<or> authority_status b = Some ''ACTIVE''
               then r0 + 8 else r0);
         r2 = (if truthy_bool (insurance_on_file b) then r1 + 4 else r1);
         r3 = (if outreach_status b = Some ''active'' then r2 + 3 else r2);
         r4 = (if outreach_status b = Some ''blacklisted'' then 0 else r3)
     in min 25 r4)"

text \<open>The function reads the clock once (\<open>Date.now()\<close>); \<open>now\<close> is that reading.\<close>

definition calculateRelationshipScore :: "int \<Rightarrow> broker \<Rightarrow> relationship_score" where
  "calculateRelationshipScore now b =
    (let p = paymentScore b;
         r = responseScore now b;
         v = revenueScore b;
         l = reliabilityScore b;
         total = min 100 (p + r + v + l)
     in \<lparr> score = total,
          breakdown = \<lparr> payment = p, responsiveness = r, revenue = v, reliability = l \<rparr> \<rparr>)"

text \<open>A broker row with every nullable column absent.\<close>

definition blank_broker :: "string \<Rightarrow> string \<Rightarrow> broker" where
  "blank_broker i c =
    \<lparr> b_id = i, carrier_id = c, company_name = None, contact_name = None,
      email = None, phone = None, credit_score = None, days_to_pay = None,
      response_rate = None, last_contact_date = None, first_contact_date = None,
      total_outreach_attempts = None, total_responses = None, total_loads_booked = None,
      authority_status = None, insurance_on_file = None, outreach_status = None,
      address_state = None, preferred_lanes = None \<rparr>"

section \<open>Strings\<close>

text \<open>
  Strings are byte lists (UTF-8). \<open>s.toUpperCase()\<close> maps the letters a to z of an
  ASCII string to A to Z and leaves its other characters. On a string with a
  character outside ASCII the result comes from the runtime's Unicode case tables
  (U+0131 followed by \<open>l\<close> becomes \<open>IL\<close>); those tables are the parameter
  \<open>unicode_upper\<close> of the model, and every property below holds whatever they are.
  \<open>str_includes s t\<close> is \<open>s.includes(t)\<close>.
\<close>

definition upper_char :: "char \<Rightarrow> char" where
  "upper_char c =
    (case map_of (zip ''abcdefghijklmnopqrstuvwxyz'' ''ABCDEFGHIJKLMNOPQRSTUVWXYZ'') c of
       Some u \<Rightarrow> u
     | None \<Rightarrow> c)"

definition is_ascii :: "string \<Rightarrow> bool" where
  "is_ascii s = list_all (\<lambda>c. \<not> digit7 c) s"

definition toUpperCase :: "(string \<Rightarrow> string) \<Rightarrow> string \<Rightarrow> string" where
  "toUpperCase unicode_upper s = (if is_ascii s then map upper_char s else unicode_upper s)"

definition str_includes :: "string \<Rightarrow> string \<Rightarrow> bool" where
  "str_includes s t = sublist t s"

text \<open>Decimal rendering of a number in a template literal, and \<open>padStart(2, '0')\<close>.\<close>

fun show_nat :: "nat \<Rightarrow> string" where
  "show_nat n =
    (if n < 10 then [''0123456789'' ! n]
     else show_nat (n div 10) @ [''0123456789'' ! (n mod 10)])"

declare show_nat.simps [simp del]

definition show_int :: "int \<Rightarrow> string" where
  "show_int i = (if i < 0 then ''-'' @ show_nat (nat (- i)) else show_nat (nat i))"

definition padStart2 :: "string \<Rightarrow> string" where
  "padStart2 s = replicate (2 - length s) (CHR ''0'') @ s"

section \<open>GeoAdjacency and TargetScorer: \<open>scoreBrokerTarget\<close> (api/lane-targeting.ts)\<close>

record carrier_profile =
  user_id :: string
  owner_name :: "string option"
  cp_company_name :: "string option"
  home_base_state :: "string option"
  cp_preferred_lanes :: "string list option"

definition STATE_NEIGHBORS :: "(string \<times> string list) list" where
  "STATE_NEIGHBORS =
    [(''NJ'', [''NY'', ''PA'', ''DE'']),
     (''NY'', [''NJ'', ''PA'', ''CT'', ''MA'', ''VT'']),
     (''PA'', [''NJ'', ''NY'', ''DE'', ''MD'', ''WV'', ''OH'']),
     (''DE'', [''NJ'', ''PA'', ''MD'']),
     (''MD'', [''PA'', ''DE'', ''WV'', ''VA'', ''DC'']),
     (''VA'', [''MD'', ''DC'', ''WV'', ''KY'', ''TN'', ''NC'']),
     (''NC'', [''VA'', ''TN'', ''SC'', ''GA'']),
     (''SC'', [''NC'', ''GA'']),
     (''GA'', [''SC'', ''NC'', ''TN'', ''AL'', ''FL'']),
     (''FL'', [''GA'', ''AL'']),
     (''AL'', [''TN'', ''GA'', ''FL'', ''MS'']),
     (''MS'', [''TN'', ''AL'', ''AR'', ''LA'']),
     (''LA'', [''MS'', ''AR'', ''TX'']),
     (''TX'', [''LA'', ''AR'', ''OK'', ''NM'']),
     (''OK'', [''TX'', ''AR'', ''MO'', ''KS'', ''CO'', ''NM'']),
     (''AR'', [''MO'', ''TN'', ''MS'', ''LA'', ''TX'', ''OK'']),
     (''TN'', [''KY'', ''VA'', ''NC'', ''GA'', ''AL'', ''MS'', ''AR'', ''MO'']),
     (''KY'', [''OH'', ''WV'', ''VA'', ''TN'', ''MO'', ''IL'', ''IN'']),
     (''WV'', [''OH'', ''PA'', ''MD'', ''VA'', ''KY'']),
     (''OH'', [''PA'', ''WV'', ''KY'', ''IN'', ''MI'']),
     (''MI'', [''OH'', ''IN'', ''WI'']),
     (''IN'', [''OH'', ''KY'', ''IL'', ''MI'']),
     (''IL'', [''WI'', ''IN'', ''KY'', ''MO'', ''IA'']),
     (''WI'', [''MI'', ''IL'', ''IA'', ''MN'']),
     (''MN'', [''WI'', ''IA'', ''ND'', ''SD'']),
     (''IA'', [''MN'', ''WI'', ''IL'', ''MO'', ''NE'', ''SD'']),
     (''MO'', [''IA'', ''IL'', ''KY'', ''TN'', ''AR'', ''OK'', ''KS'', ''NE'']),
     (''KS'', [''NE'', ''MO'', ''OK'', ''CO'']),
     (''NE'', [''SD'', ''IA'', ''MO'', ''KS'', ''CO'', ''WY'']),
     (''SD'', [''ND'', ''MN'', ''IA'', ''NE'', ''WY'', ''MT'']),
     (''ND'', [''MN'', ''SD'', ''MT'']),
     (''MT'', [''ND'', ''SD'', ''WY'', ''ID'']),
     (''WY'', [''MT'', ''SD'', ''NE'', ''CO'', ''UT'', ''ID'']),
     (''CO'', [''WY'', ''NE'', ''KS'', ''OK'', ''NM'', ''UT'']),
     (''NM'', [''CO'', ''OK'', ''TX'', ''AZ'']),
     (''AZ'', [''NM'', ''UT'', ''NV'', ''CA'']),
     (''UT'', [''WY'', ''CO'', ''NM'', ''AZ'', ''NV'', ''ID'']),
     (''NV'', [''OR'', ''ID'', ''UT'', ''AZ'', ''CA'']),
     (''CA'', [''OR'', ''NV'', ''AZ'']),
     (''OR'', [''WA'', ''ID'', ''NV'', ''CA'']),
     (''WA'', [''OR'', ''ID'']),
     (''ID'', [''WA'', ''OR'', ''NV'', ''UT'', ''WY'', ''MT'']),
     (''CT'', [''NY'', ''MA'', ''RI'']),
     (''MA'', [''NY'', ''CT'', ''RI'', ''NH'', ''VT'']),
     (''RI'', [''CT'', ''MA'']),
     (''NH'', [''MA'', ''VT'', ''ME'']),
     (''VT'', [''NY'', ''MA'', ''NH'']),
     (''ME'', [''NH'']),
     (''DC'', [''MD'', ''VA''])]"

text \<open>
  \<open>STATE_NEIGHBORS[carrierState]?.includes(brokerState)\<close>: the table is read at
  its own keys (the call sites pass an upper-cased code, which names no inherited
  property of the object); a missing key or an absent broker state gives false.
\<close>

definition is_neighbor :: "string \<Rightarrow> string option \<Rightarrow> bool" where
  "is_neighbor carrierState brokerState =
    (case map_of STATE_NEIGHBORS carrierState of
       None \<Rightarrow> False
     | Some ns \<Rightarrow> (case brokerState of None \<Rightarrow> False | Some bs \<Rightarrow> bs \<in> set ns))"

record target_result =
  target_score :: int
  reasons :: "string list"

text \<open>
  The body of \<open>scoreBrokerTarget\<close> updates \<open>score\<close> and \<open>reasons\<close> block by block;
  each numbered block of the source is one step on the pair \<open>(score, reasons)\<close>.
\<close>

type_synonym acc = "int \<times> string list"

definition geo_step :: "(string \<Rightarrow> string) \<Rightarrow> broker \<Rightarrow> string \<Rightarrow> acc \<Rightarrow> acc" where
  "geo_step u b carrierState a =
    (let brokerState = map_option (toUpperCase u) (address_state b)
     in if brokerState = Some carrierState
        then (fst a + 20, snd a @ [''Same state as home base''])
        else if is_neighbor carrierState brokerState
        then (fst a + 10, snd a @ [''Neighboring state''])
        else a)"

definition lane_overlap :: "string list \<Rightarrow> string list \<Rightarrow> string list" where
  "lane_overlap carrierLanes brokerLanes =
    filter (\<lambda>l. list_ex (\<lambda>bl. str_includes bl l \<or> str_includes l bl) brokerLanes) carrierLanes"

definition lane_step :: "broker \<Rightarrow> carrier_profile \<Rightarrow> acc \<Rightarrow> acc" where
  "lane_step b c a =
    (let carrierLanes = (case cp_preferred_lanes c of None \<Rightarrow> [] | Some ls \<Rightarrow> ls);
         brokerLanes = (case preferred_lanes b of None \<Rightarrow> [] | Some ls \<Rightarrow> ls)
     in if length carrierLanes > 0 \<and> length brokerLanes > 0
        then (let overlap = lane_overlap carrierLanes brokerLanes
              in if length overlap > 0
                 then (fst a + int (length overlap) * 10,
                       snd a @ [show_nat (length overlap) @ '' matching lane(s)''])
                 else a)
        else a)"

definition authority_step :: "broker \<Rightarrow> acc \<Rightarrow> acc" where
  "authority_step b a =
    (if authority_status b = Some ''ACTIVE'' \<or> authority_status b = Some ''active''
     then (fst a + 5, snd a) else a)"

definition credit_step :: "broker \<Rightarrow> acc \<Rightarrow> acc" where
  "credit_step b a =
    (if truthy_num (credit_score b) \<and> ge_num (credit_score b) 90
     then (fst a + 10, snd a @ [''High credit score''])
     else if truthy_num (credit_score b) \<and> lt_num (credit_score b) 80
     then (fst a - 15, snd a @ [''Low credit score '' @ [CHR 0xE2, CHR 0x80, CHR 0x94] @ '' risky''])
     else a)"

definition pay_step :: "broker \<Rightarrow> acc \<Rightarrow> acc" where
  "pay_step b a =
    (if truthy_num (days_to_pay b) \<and> le_num (days_to_pay b) 15
     then (fst a + 10, snd a @ [''Quick pay ('' @ [CHR 0xE2, CHR 0x89, CHR 0xA4] @ ''15 days)''])
     else if truthy_num (days_to_pay b) \<and> gt_num (days_to_pay b) 45
     then (fst a - 5, snd a @ [''Slow pay (45+ days)''])
     else a)"

definition new_step :: "broker \<Rightarrow> acc \<Rightarrow> acc" where
  "new_step b a =
    (if outreach_status b = Some ''new'' \<or> falsy_str (outreach_status b)
     then (fst a + 5, snd a @ [''Not yet contacted'']) else a)"

definition loads_step :: "broker \<Rightarrow> acc \<Rightarrow> acc" where
  "loads_step b a =
    (case total_loads_booked b of
       None \<Rightarrow> a
     | Some n \<Rightarrow>
         if n > 0
         then (fst a + n * 5, snd a @ [show_int n @ '' loads booked previously''])
         else a)"

definition rate_step :: "broker \<Rightarrow> acc \<Rightarrow> acc" where
  "rate_step b a =
    (if gt_rat (response_rate b) 50
     then (fst a + 10, snd a @ [''High response rate'']) else a)"

definition scoreBrokerTarget ::
  "(string \<Rightarrow> string) \<Rightarrow> broker \<Rightarrow> carrier_profile \<Rightarrow> string \<Rightarrow> target_result" where
  "scoreBrokerTarget u b c carrierState =
    (let a0 = (50, []);
         a1 = geo_step u b carrierState a0;
         a2 = lane_step b c a1;
         a3 = authority_step b a2;
         a4 = credit_step b a3;
         a5 = pay_step b a4;
         a6 = new_step b a5;
         a7 = loads_step b a6;
         a8 = rate_step b a7
     in \<lparr> target_score = min 100 (max 0 (fst a8)), reasons = snd a8 \<rparr>)"

section \<open>ComplianceWindow: \<open>getStateRules\<close>, \<open>canCallNow\<close> (api/compliance-check.ts)\<close>

record StateRule =
  state :: string
  name :: string
  timezone :: string
  call_start_hour :: nat
  call_end_hour :: nat
  state_dnc_registry :: bool
  additional_restrictions :: "string list"

definition mk_rule :: "string \<Rightarrow> string \<Rightarrow> string \<Rightarrow> string list \<Rightarrow> StateRule" where
  "mk_rule st nm tz rs =
    \<lparr> state = st, name = nm, timezone = tz, call_start_hour = 8, call_end_hour = 21,
      state_dnc_registry = True, additional_restrictions = rs \<rparr>"

definition STATE_RULES :: "(string \<times> StateRule) list" where
  "STATE_RULES =
    [(''CA'', mk_rule ''CA'' ''California'' ''America/Los_Angeles''
         [''Requires written consent for automated calls'',
          ''Must identify caller within first 30 seconds'']),
     (''NY'', mk_rule ''NY'' ''New York'' ''America/New_York'' [''Must register with NY DNC'']),
     (''TX'', mk_rule ''TX'' ''Texas'' ''America/Chicago'' [''Must check Texas no-call list'']),
     (''FL'', mk_rule ''FL'' ''Florida'' ''America/New_York''
         [''Calling hours 8am-8pm local'', ''Must register as telemarketer'']),
     (''PA'', mk_rule ''PA'' ''Pennsylvania'' ''America/New_York'' []),
     (''IL'', mk_rule ''IL'' ''Illinois'' ''America/Chicago'' [''Must provide opt-out mechanism'']),
     (''NJ'', mk_rule ''NJ'' ''New Jersey'' ''America/New_York'' [''Must register with NJ DCA'']),
     (''GA'', mk_rule ''GA'' ''Georgia'' ''America/New_York'' []),
     (''OH'', mk_rule ''OH'' ''Ohio'' ''America/New_York'' []),
     (''NC'', mk_rule ''NC'' ''North Carolina'' ''America/New_York'' [])]"

definition FEDERAL_DEFAULT :: StateRule where
  "FEDERAL_DEFAULT =
    \<lparr> state = ''DEFAULT'', name = ''Federal (TCPA)'', timezone = ''America/New_York'',
      call_start_hour = 8, call_end_hour = 21, state_dnc_registry = False,
      additional_restrictions =
        [''Federal TCPA: No calls before 8am or after 9pm local time'',
         ''Must identify yourself and company'',
         ''Must honor do-not-call requests immediately'',
         ''B2B cold calls are generally permitted under TCPA''] \<rparr>"

definition getStateRules :: "(string \<Rightarrow> string) \<Rightarrow> string \<Rightarrow> StateRule" where
  "getStateRules u stateCode =
    (case map_of STATE_RULES (toUpperCase u stateCode) of
       Some r \<Rightarrow> r
     | None \<Rightarrow> FEDERAL_DEFAULT \<lparr> state := toUpperCase u stateCode,
                                  name := toUpperCase u stateCode \<rparr>)"

record call_check =
  allowed :: bool
  reason :: string
  local_time :: string

text \<open>
  \<open>canCallNow\<close> reads the wall clock in the rule's time zone through the runtime's
  time-zone data. That reading is the parameter \<open>localTime\<close>: for an IANA zone name
  it gives \<open>(getHours(), getMinutes())\<close> of the current instant there.
\<close>

definition canCallNow ::
  "(string \<Rightarrow> string) \<Rightarrow> (string \<Rightarrow> nat \<times> nat) \<Rightarrow> string \<Rightarrow> call_check" where
  "canCallNow u localTime stateCode =
    (let rules = getStateRules u stateCode;
         hour = fst (localTime (timezone rules));
         minute = snd (localTime (timezone rules));
         timeStr = padStart2 (show_nat hour) @ '':'' @ padStart2 (show_nat minute)
     in if hour < call_start_hour rules
        then \<lparr> allowed = False,
               reason = ''Too early in '' @ name rules @ ''. Calling allowed after ''
                        @ show_nat (call_start_hour rules)
                        @ '':00 AM local time. Current local time: '' @ timeStr @ ''.'',
               local_time = timeStr \<rparr>
        else if hour \<ge> call_end_hour rules
        then \<lparr> allowed = False,
               reason = ''Too late in '' @ name rules @ ''. Calling not allowed after ''
                        @ show_nat (call_end_hour rules)
                        @ '':00 PM local time. Current local time: '' @ timeStr @ ''.'',
               local_time = timeStr \<rparr>
        else \<lparr> allowed = True,
               reason = ''OK to call '' @ name rules @ ''. Current local time: '' @ timeStr
                        @ ''. Window: '' @ show_nat (call_start_hour rules) @ '':00 AM - ''
                        @ show_nat (call_end_hour rules) @ '':00 PM.'',
               local_time = timeStr \<rparr>)"

section \<open>The record store and the delivery providers\<close>

text \<open>
  The campaign handlers keep no state of their own: every invocation reads and
  writes the external record store and calls the e-mail or voice provider. The
  model threads one \<open>world\<close> through a handler: the four tables the handlers touch,
  the store's generator of campaign ids, and the log of what has been handed to
  each provider. Store operations are taken to succeed. Timestamps written by the
  handlers are milliseconds since the epoch; a handler's clock readings within one
  invocation are identified with the single reading \<open>now\<close>.
\<close>

record campaign =
  c_id :: nat
  c_carrier_id :: string
  c_broker_id :: string
  campaign_type :: string
  subject :: string
  body_text :: string
  template_used :: "string option"
  c_method :: string
  status :: string
  sequence_step :: int
  parent_campaign_id :: "nat option"
  scheduled_at :: int
  sent_at :: "int option"
  sendgrid_message_id :: "string option"
  error_message :: "string option"
  replied_at :: "int option"
  broker_response :: "string option"
  response_sentiment :: "string option"

record email_template =
  t_name :: string
  t_carrier_id :: "string option"
  category :: string
  is_default :: bool
  t_sequence_step :: int
  delay_days :: int
  subject_template :: string
  body_template :: string

text \<open>One call of \<open>sgMail.send\<close>. The field \<open>for_step\<close> is not part of the
  message: it records which stored step the sweep was dispatching (\<open>None\<close> for the
  initial e-mail, which is sent before its record is inserted).\<close>

record dispatch =
  to_addr :: string
  from_addr :: string
  from_name :: string
  msg_subject :: string
  msg_text :: string
  for_step :: "campaign option"

record call_request =
  call_to :: string
  call_from :: string
  call_script :: string

record world =
  carrier_profiles :: "carrier_profile list"
  brokers :: "broker list"
  outreach_campaigns :: "campaign list"
  email_templates :: "email_template list"
  next_id :: nat
  outbox :: "dispatch list"
  calls :: "call_request list"

text \<open>What a provider answers: the \<open>x-message-id\<close> header (empty when missing)
  or the message of the exception; the call sid or the message of the exception.\<close>

datatype send_outcome = Accepted string | Rejected string

datatype call_outcome = Call_created string | Call_failed string

text \<open>
  The environment of an invocation: the configured credentials, the providers'
  answers (to the k-th request made so far), and the pure text functions of the
  handlers whose output no property below depends on: \<open>fillTemplate(template,
  buildTemplateVars(carrier, broker))\<close>, the \<open>full_script\<close> of
  \<open>generateCallScript\<close>, and the double-precision computation
  \<open>parseFloat(((responses / attempts) * 100).toFixed(2))\<close>.
\<close>

record env =
  SENDGRID_API_KEY :: "string option"
  SENDGRID_FROM_EMAIL :: "string option"
  TWILIO_ACCOUNT_SID :: "string option"
  TWILIO_AUTH_TOKEN :: "string option"
  TWILIO_FROM_NUMBER :: "string option"
  sgMail_send :: "nat \<Rightarrow> send_outcome"
  calls_create :: "nat \<Rightarrow> call_outcome"
  fillTemplate :: "string \<Rightarrow> carrier_profile \<Rightarrow> broker \<Rightarrow> string"
  generateCallScript :: "carrier_profile \<Rightarrow> broker \<Rightarrow> string"
  response_rate_of :: "int \<Rightarrow> int \<Rightarrow> rat"

text \<open>Errors of the handlers, by HTTP status: 400, 404, 409 (with the existing
  campaign's id and status) and 500.\<close>

datatype error =
    ValidationError string
  | NotFoundError string
  | ConflictError string nat string
  | UpstreamError string

text \<open>\<open>x || fallback\<close> on nullable strings and numbers.\<close>

definition or_str :: "string option \<Rightarrow> string \<Rightarrow> string" where
  "or_str x d = (case x of None \<Rightarrow> d | Some s \<Rightarrow> if s = [] then d else s)"

definition or_zero :: "int option \<Rightarrow> int" where
  "or_zero x = (case x of None \<Rightarrow> 0 | Some n \<Rightarrow> n)"

definition non_empty :: "string \<Rightarrow> string option" where
  "non_empty s = (if s = [] then None else Some s)"

text \<open>The query modifier \<open>.single()\<close>: the row when the query yields exactly one
  row, otherwise no data.\<close>

fun single :: "'a list \<Rightarrow> 'a option" where
  "single [x] = Some x"
| "single xs = None"

definition select_carrier :: "world \<Rightarrow> string \<Rightarrow> carrier_profile option" where
  "select_carrier w userId = single (filter (\<lambda>c. user_id c = userId) (carrier_profiles w))"

definition select_broker :: "world \<Rightarrow> string \<Rightarrow> string \<Rightarrow> broker option" where
  "select_broker w broker_id userId =
    single (filter (\<lambda>b. b_id b = broker_id \<and> carrier_id b = userId) (brokers w))"

definition step1_records :: "world \<Rightarrow> string \<Rightarrow> string \<Rightarrow> campaign list" where
  "step1_records w broker_id userId =
    filter (\<lambda>c. c_broker_id c = broker_id \<and> c_carrier_id c = userId \<and> sequence_step c = 1)
      (outreach_campaigns w)"

text \<open>\<open>.eq('name', n).or('carrier_id.is.null,carrier_id.eq.' + userId)
  .order('carrier_id', {ascending: false, nullsFirst: false}).limit(1).single()\<close>:
  the carrier's own template before a shared one.\<close>

definition select_template :: "world \<Rightarrow> string \<Rightarrow> string \<Rightarrow> email_template option" where
  "select_template w n userId =
    (let own = filter (\<lambda>t. t_name t = n \<and> t_carrier_id t = Some userId) (email_templates w);
         shared = filter (\<lambda>t. t_name t = n \<and> t_carrier_id t = None) (email_templates w)
     in case own @ shared of [] \<Rightarrow> None | t # ts \<Rightarrow> Some t)"

definition insert_campaign :: "campaign \<Rightarrow> world \<Rightarrow> campaign \<times> world" where
  "insert_campaign c w =
    (let row = c \<lparr> c_id := next_id w \<rparr>
     in (row, w \<lparr> outreach_campaigns := outreach_campaigns w @ [row],
                  next_id := Suc (next_id w) \<rparr>))"

definition update_campaigns :: "(campaign \<Rightarrow> bool) \<Rightarrow> (campaign \<Rightarrow> campaign) \<Rightarrow> world \<Rightarrow> world" where
  "update_campaigns P f w =
    w \<lparr> outreach_campaigns := map (\<lambda>c. if P c then f c else c) (outreach_campaigns w) \<rparr>"

definition update_brokers :: "(broker \<Rightarrow> bool) \<Rightarrow> (broker \<Rightarrow> broker) \<Rightarrow> world \<Rightarrow> world" where
  "update_brokers P f w =
    w \<lparr> brokers := map (\<lambda>b. if P b then f b else b) (brokers w) \<rparr>"

text \<open>The delivery block of both e-mail handlers: with key and sender address
  configured the message goes to the provider; otherwise (DEV MODE) it is logged
  and reported as sent with message id \<open>dev-mode\<close>.\<close>

record send_result =
  success :: bool
  messageId :: string
  send_error :: string

definition deliver ::
  "env \<Rightarrow> string \<Rightarrow> string \<Rightarrow> string \<Rightarrow> string \<Rightarrow> campaign option \<Rightarrow> world \<Rightarrow> send_result \<times> world" where
  "deliver e to_a nm subj txt step w =
    (if truthy_str (SENDGRID_API_KEY e) \<and> truthy_str (SENDGRID_FROM_EMAIL e)
     then
       (let w1 = w \<lparr> outbox := outbox w @
                   [\<lparr> to_addr = to_a, from_addr = or_str (SENDGRID_FROM_EMAIL e) [],
                      from_name = nm, msg_subject = subj, msg_text = txt,
                      for_step = step \<rparr>] \<rparr>
        in case sgMail_send e (length (outbox w)) of
             Accepted mid \<Rightarrow> (\<lparr> success = True, messageId = mid, send_error = [] \<rparr>, w1)
           | Rejected err \<Rightarrow> (\<lparr> success = False, messageId = [], send_error = err \<rparr>, w1))
     else (\<lparr> success = True, messageId = ''dev-mode'', send_error = [] \<rparr>, w))"

definition sender_name :: "carrier_profile option \<Rightarrow> string" where
  "sender_name c =
    (case c of
       None \<Rightarrow> ''Pure Dispatch''
     | Some cp \<Rightarrow> or_str (owner_name cp) (or_str (cp_company_name cp) ''Pure Dispatch''))"

section \<open>CampaignScheduler: \<open>send-initial\<close> and \<open>scheduleFollowUps\<close> (api/email-send.ts)\<close>

definition follow_up_templates :: "world \<Rightarrow> email_template list" where
  "follow_up_templates w =
    sort_key t_sequence_step
      (filter (\<lambda>t. is_default t \<and> category t = ''follow_up'') (email_templates w))"

definition follow_up_row ::
  "env \<Rightarrow> int \<Rightarrow> string \<Rightarrow> string \<Rightarrow> nat \<Rightarrow> carrier_profile \<Rightarrow> broker \<Rightarrow> email_template \<Rightarrow> campaign" where
  "follow_up_row e now carrierId brokerId parentCampaignId carrier broker tmpl =
    \<lparr> c_id = 0, c_carrier_id = carrierId, c_broker_id = brokerId,
      campaign_type = ''follow_up'',
      subject = fillTemplate e (subject_template tmpl) carrier broker,
      body_text = fillTemplate e (body_template tmpl) carrier broker,
      template_used = Some (t_name tmpl), c_method = ''email'', status = ''scheduled'',
      sequence_step = t_sequence_step tmpl, parent_campaign_id = Some parentCampaignId,
      scheduled_at = now + delay_days tmpl * (1000 * 60 * 60 * 24), sent_at = None,
      sendgrid_message_id = None, error_message = None, replied_at = None,
      broker_response = None, response_sentiment = None \<rparr>"

text \<open>The loop \<open>for (const tmpl of templates) { ... insert ... }\<close>. The day
  arithmetic of \<open>setDate\<close> is in the server's zone, taken to be UTC.\<close>

fun insert_follow_ups ::
  "env \<Rightarrow> int \<Rightarrow> string \<Rightarrow> string \<Rightarrow> nat \<Rightarrow> carrier_profile \<Rightarrow> broker \<Rightarrow> email_template list \<Rightarrow> world \<Rightarrow> world" where
  "insert_follow_ups e now carrierId brokerId parent carrier broker [] w = w"
| "insert_follow_ups e now carrierId brokerId parent carrier broker (tmpl # tmpls) w =
    insert_follow_ups e now carrierId brokerId parent carrier broker tmpls
      (snd (insert_campaign (follow_up_row e now carrierId brokerId parent carrier broker tmpl) w))"

definition scheduleFollowUps ::
  "env \<Rightarrow> int \<Rightarrow> string \<Rightarrow> string \<Rightarrow> nat \<Rightarrow> carrier_profile \<Rightarrow> broker \<Rightarrow> world \<Rightarrow> world" where
  "scheduleFollowUps e now carrierId brokerId parentCampaignId carrier broker w =
    insert_follow_ups e now carrierId brokerId parentCampaignId carrier broker
      (follow_up_templates w) w"

record send_initial_ok =
  si_success :: bool
  si_campaign :: campaign

definition initial_row ::
  "int \<Rightarrow> string \<Rightarrow> string \<Rightarrow> string \<Rightarrow> string \<Rightarrow> send_result \<Rightarrow> campaign" where
  "initial_row now userId broker_id subj bodyText sendResult =
    \<lparr> c_id = 0, c_carrier_id = userId, c_broker_id = broker_id,
      campaign_type = ''cold_outreach'', subject = subj, body_text = bodyText,
      template_used = Some ''initial_outreach'', c_method = ''email'',
      status = (if success sendResult then ''sent'' else ''failed''),
      sequence_step = 1, parent_campaign_id = None, scheduled_at = now,
      sent_at = (if success sendResult then Some now else None),
      sendgrid_message_id = non_empty (messageId sendResult),
      error_message = non_empty (send_error sendResult), replied_at = None,
      broker_response = None, response_sentiment = None \<rparr>"

definition contacted :: "int \<Rightarrow> broker \<Rightarrow> broker \<Rightarrow> broker" where
  "contacted now broker row =
    row \<lparr> outreach_status := Some ''contacted'',
          last_contact_date := Some (Instant now),
          first_contact_date :=
            (case first_contact_date broker of
               None \<Rightarrow> Some (Instant now)
             | Some d \<Rightarrow> Some d),
          total_outreach_attempts := Some (or_zero (total_outreach_attempts broker) + 1) \<rparr>"

text \<open>\<open>case 'send-initial'\<close> for the authenticated user \<open>userId\<close> and the
  \<open>broker_id\<close> of the request body.\<close>

definition send_initial ::
  "env \<Rightarrow> int \<Rightarrow> string \<Rightarrow> string option \<Rightarrow> world \<Rightarrow> (error + send_initial_ok) \<times> world" where
  "send_initial e now userId req_broker_id w =
    (case nonempty req_broker_id of
       None \<Rightarrow> (Inl (ValidationError ''broker_id required''), w)
     | Some broker_id \<Rightarrow>
     (case select_carrier w userId of
        None \<Rightarrow> (Inl (ValidationError ''Complete your carrier profile first''), w)
      | Some carrier \<Rightarrow>
      (case select_broker w broker_id userId of
         None \<Rightarrow> (Inl (NotFoundError ''Broker not found''), w)
       | Some broker \<Rightarrow>
       (case nonempty (email broker) of
          None \<Rightarrow> (Inl (ValidationError ''Broker has no email address on file''), w)
        | Some addr \<Rightarrow>
        (case single (step1_records w broker_id userId) of
           Some existingCampaign \<Rightarrow>
             (Inl (ConflictError ''Initial outreach already sent to this broker''
                     (c_id existingCampaign) (status existingCampaign)), w)
         | None \<Rightarrow>
         (case select_template w ''initial_outreach'' userId of
            None \<Rightarrow> (Inl (UpstreamError ''Initial outreach template not found''), w)
          | Some template \<Rightarrow>
              (let subj = fillTemplate e (subject_template template) carrier broker;
                   bodyText = fillTemplate e (body_template template) carrier broker;
                   (sendResult, w1) =
                     deliver e addr (sender_name (Some carrier)) subj bodyText None w;
                   (campaign, w2) =
                     insert_campaign (initial_row now userId broker_id subj bodyText sendResult) w1;
                   w3 = update_brokers (\<lambda>b. b_id b = broker_id) (contacted now broker) w2;
                   w4 = (if success sendResult
                         then scheduleFollowUps e now userId broker_id (c_id campaign)
                                carrier broker w3
                         else w3)
               in (Inr \<lparr> si_success = success sendResult, si_campaign = campaign \<rparr>, w4))))))))"

section \<open>CampaignScheduler: the due-follow-up sweep (api/follow-up-check.ts)\<close>

text \<open>A fetched row: the campaign with its embedded broker and carrier profile,
  as the select with the two joins returns them.\<close>

record pending =
  pc :: campaign
  p_broker :: "broker option"
  p_carrier :: "carrier_profile option"

definition join_row :: "world \<Rightarrow> campaign \<Rightarrow> pending" where
  "join_row w c =
    \<lparr> pc = c,
      p_broker = find (\<lambda>b. b_id b = c_broker_id c) (brokers w),
      p_carrier = find (\<lambda>p. user_id p = c_carrier_id c) (carrier_profiles w) \<rparr>"

text \<open>\<open>.eq('status', 'scheduled').lte('scheduled_at', now).order('scheduled_at')
  .limit(100)\<close>\<close>

definition fetch_pending :: "int \<Rightarrow> world \<Rightarrow> pending list" where
  "fetch_pending now w =
    map (join_row w)
      (take 100 (sort_key scheduled_at
         (filter (\<lambda>c. status c = ''scheduled'' \<and> scheduled_at c \<le> now)
            (outreach_campaigns w))))"

record sweep_entry =
  entry_id :: nat
  entry_status :: string
  entry_error :: "string option"

definition close_step :: "nat \<Rightarrow> string \<Rightarrow> string \<Rightarrow> world \<Rightarrow> world" where
  "close_step i st msg w =
    update_campaigns (\<lambda>c. c_id c = i)
      (\<lambda>c. c \<lparr> status := st, error_message := Some msg \<rparr>) w"

definition record_delivery :: "int \<Rightarrow> nat \<Rightarrow> send_result \<Rightarrow> world \<Rightarrow> world" where
  "record_delivery now i r w =
    update_campaigns (\<lambda>c. c_id c = i)
      (\<lambda>c. c \<lparr> status := (if success r then ''sent'' else ''failed''),
               sent_at := (if success r then Some now else None),
               sendgrid_message_id := non_empty (messageId r),
               error_message := non_empty (send_error r) \<rparr>) w"

text \<open>The contact tracking after a successful send: the attempt counter is read
  back from the store (\<open>.eq('id', campaign.broker_id).single()\<close>).\<close>

definition track_contact :: "int \<Rightarrow> string \<Rightarrow> world \<Rightarrow> world" where
  "track_contact now brokerId w =
    (let brokerData = single (filter (\<lambda>b. b_id b = brokerId) (brokers w));
         attempts = (case brokerData of None \<Rightarrow> 0 | Some d \<Rightarrow> or_zero (total_outreach_attempts d))
     in update_brokers (\<lambda>b. b_id b = brokerId)
          (\<lambda>b. b \<lparr> last_contact_date := Some (Instant now),
                   total_outreach_attempts := Some (attempts + 1) \<rparr>) w)"

text \<open>The body of \<open>for (const campaign of pendingCampaigns)\<close>.\<close>

definition process_campaign :: "env \<Rightarrow> int \<Rightarrow> pending \<Rightarrow> world \<Rightarrow> sweep_entry \<times> world" where
  "process_campaign e now p w =
    (let campaign = pc p;
         no_email =
           (\<lparr> entry_id = c_id campaign, entry_status = ''skipped'',
              entry_error = Some ''No email'' \<rparr>,
            close_step (c_id campaign) ''failed'' ''Broker has no email address'' w)
     in case p_broker p of
          None \<Rightarrow> no_email
        | Some broker \<Rightarrow>
        (case nonempty (email broker) of
           None \<Rightarrow> no_email
         | Some addr \<Rightarrow>
             if outreach_status broker = Some ''responded''
                \<or> outreach_status broker = Some ''active''
             then (\<lparr> entry_id = c_id campaign, entry_status = ''cancelled'',
                     entry_error = Some ''Already responded'' \<rparr>,
                   close_step (c_id campaign) ''cancelled''
                     (''Broker already responded '' @ [CHR 0xE2, CHR 0x80, CHR 0x94]
                        @ '' follow-up cancelled'') w)
             else if outreach_status broker = Some ''blacklisted''
             then (\<lparr> entry_id = c_id campaign, entry_status = ''cancelled'',
                     entry_error = Some ''Blacklisted'' \<rparr>,
                   close_step (c_id campaign) ''cancelled'' ''Broker is blacklisted'' w)
             else
               (let (r, w1) = deliver e addr (sender_name (p_carrier p))
                                (if subject campaign = [] then ''Following Up''
                                 else subject campaign)
                                (body_text campaign) (Some campaign) w;
                    w2 = record_delivery now (c_id campaign) r w1;
                    w3 = (if success r then track_contact now (c_broker_id campaign) w2 else w2)
                in (\<lparr> entry_id = c_id campaign,
                      entry_status = (if success r then ''sent'' else ''failed''),
                      entry_error = non_empty (send_error r) \<rparr>, w3))))"

fun process_all :: "env \<Rightarrow> int \<Rightarrow> pending list \<Rightarrow> world \<Rightarrow> sweep_entry list \<times> world" where
  "process_all e now [] w = ([], w)"
| "process_all e now (p # ps) w =
    (let (r, w1) = process_campaign e now p w;
         (rs, w2) = process_all e now ps w1
     in (r # rs, w2))"

text \<open>The handler: fetch the due steps, then process the fetched batch.\<close>

definition follow_up_check :: "env \<Rightarrow> int \<Rightarrow> world \<Rightarrow> sweep_entry list \<times> world" where
  "follow_up_check e now w = process_all e now (fetch_pending now w) w"

text \<open>A cron that invokes the handler again and again, one invocation after the
  other, each with its own environment and clock reading.\<close>

fun run_sweeps :: "(env \<times> int) list \<Rightarrow> world \<Rightarrow> world" where
  "run_sweeps [] w = w"
| "run_sweeps ((e, now) # rest) w = run_sweeps rest (snd (follow_up_check e now w))"

section \<open>CampaignScheduler: \<open>mark-responded\<close> (api/response-track.ts)\<close>






definition responded :: "env \<Rightarrow> int \<Rightarrow> broker \<Rightarrow> broker \<Rightarrow> broker" where
  "responded e now broker row =
    (let newResponses = or_zero (total_responses broker) + 1;
         newRate = (if gt_num (total_outreach_attempts broker) 0
                    then response_rate_of e newResponses (or_zero (total_outreach_attempts broker))
                    else 100)
     in row \<lparr> outreach_status := Some ''responded'',
              total_responses := Some newResponses,
              response_rate := Some newRate,
              last_contact_date := Some (Instant now) \<rparr>)"


section \<open>Voice calls: \<open>initiate\<close> (api/voice-call.ts)\<close>

record initiate_ok =
  dev_mode :: bool
  call_sid :: "string option"

definition call_row :: "env \<Rightarrow> int \<Rightarrow> string \<Rightarrow> string \<Rightarrow> carrier_profile \<Rightarrow> broker \<Rightarrow> string option \<Rightarrow> campaign" where
  "call_row e now userId broker_id carrier broker note =
    \<lparr> c_id = 0, c_carrier_id = userId, c_broker_id = broker_id,
      campaign_type = ''cold_outreach'',
      subject = ''Call to '' @ (case company_name broker of None \<Rightarrow> ''null'' | Some n \<Rightarrow> n),
      body_text = generateCallScript e carrier broker,
      template_used = None, c_method = ''call'', status = ''sent'', sequence_step = 1,
      parent_campaign_id = None, scheduled_at = now, sent_at = Some now,
      sendgrid_message_id = None, error_message = note, replied_at = None,
      broker_response = None, response_sentiment = None \<rparr>"

definition called :: "int \<Rightarrow> broker \<Rightarrow> broker \<Rightarrow> broker" where
  "called now broker row =
    row \<lparr> last_contact_date := Some (Instant now),
          total_outreach_attempts := Some (or_zero (total_outreach_attempts broker) + 1),
          outreach_status := (if outreach_status broker = Some ''new''
                              then Some ''contacted'' else outreach_status broker) \<rparr>"

text \<open>\<open>case 'initiate'\<close>. Without the three Twilio settings (DEV MODE) the
  attempt is only logged as a campaign record; with them the call is placed, and an
  exception of \<open>client.calls.create\<close> ends the handler with status 500.\<close>

definition initiate ::
  "env \<Rightarrow> int \<Rightarrow> string \<Rightarrow> string option \<Rightarrow> world \<Rightarrow> (error + initiate_ok) \<times> world" where
  "initiate e now userId req_broker_id w =
    (case nonempty req_broker_id of
       None \<Rightarrow> (Inl (ValidationError ''broker_id required''), w)
     | Some broker_id \<Rightarrow>
     (case select_carrier w userId of
        None \<Rightarrow> (Inl (ValidationError ''Carrier profile required''), w)
      | Some carrier \<Rightarrow>
      (case select_broker w broker_id userId of
         None \<Rightarrow> (Inl (NotFoundError ''Broker not found''), w)
       | Some broker \<Rightarrow>
       (case nonempty (phone broker) of
          None \<Rightarrow> (Inl (ValidationError ''Broker has no phone number on file''), w)
        | Some number \<Rightarrow>
            if falsy_str (TWILIO_ACCOUNT_SID e) \<or> falsy_str (TWILIO_AUTH_TOKEN e)
               \<or> falsy_str (TWILIO_FROM_NUMBER e)
            then
              (let (row, w1) =
                     insert_campaign
                       (call_row e now userId broker_id carrier broker
                          (Some (''DEV MODE '' @ [CHR 0xE2, CHR 0x80, CHR 0x94]
                                   @ '' no actual call placed''))) w
               in (Inr \<lparr> dev_mode = True, call_sid = None \<rparr>, w1))
            else
              (let w1 = w \<lparr> calls := calls w @
                          [\<lparr> call_to = number, call_from = or_str (TWILIO_FROM_NUMBER e) [],
                             call_script = generateCallScript e carrier broker \<rparr>] \<rparr>
               in case calls_create e (length (calls w)) of
                    Call_failed msg \<Rightarrow>
                      (Inl (UpstreamError (if msg = [] then ''Internal server error'' else msg)), w1)
                  | Call_created sid \<Rightarrow>
                      (let (row, w2) =
                             insert_campaign
                               (call_row e now userId broker_id carrier broker None) w1;
                           w3 = update_brokers (\<lambda>b. b_id b = broker_id) (called now broker) w2
                       in (Inr \<lparr> dev_mode = False, call_sid = Some sid \<rparr>, w3)))))))"

section \<open>Reference definitions, following the specification's wording\<close>

definition clamp_range :: "int \<Rightarrow> int \<Rightarrow> int \<Rightarrow> int" where
  "clamp_range lo hi x = min hi (max lo x)"

text \<open>Payment rule of the RelationshipScorer: default 15, tiers on a present
  \<open>credit_score\<close>, adjustment on a present \<open>days_to_pay\<close>, clamped into [0,25].\<close>

definition spec_payment_base :: "int option \<Rightarrow> int" where
  "spec_payment_base cs =
    (case cs of
       None \<Rightarrow> 15
     | Some c \<Rightarrow> if c \<ge> 95 then 25 else if c \<ge> 90 then 22 else if c \<ge> 85 then 18
                else if c \<ge> 80 then 12 else 5)"

definition spec_payment_adjust :: "int option \<Rightarrow> int" where
  "spec_payment_adjust d =
    (case d of
       None \<Rightarrow> 0
     | Some n \<Rightarrow> if n \<le> 7 then 5 else if n \<le> 15 then 3 else if n > 45 then - 5 else 0)"

definition spec_payment :: "int option \<Rightarrow> int option \<Rightarrow> int" where
  "spec_payment cs d = clamp_range 0 25 (spec_payment_base cs + spec_payment_adjust d)"

text \<open>ComplianceWindow: the regions that have a rule record of their own, and the
  time zone whose clock decides for a region code (the federal default, used for
  every other code, is on America/New_York).\<close>

definition listed_regions :: "string list" where
  "listed_regions = [''CA'', ''NY'', ''TX'', ''FL'', ''PA'', ''IL'', ''NJ'', ''GA'', ''OH'', ''NC'']"

definition zone_of_region :: "string \<Rightarrow> string" where
  "zone_of_region k =
    (if k = ''CA'' then ''America/Los_Angeles''
     else if k = ''TX'' \<or> k = ''IL'' then ''America/Chicago''
     else ''America/New_York'')"

text \<open>GeoAdjacency: \<open>neighbors(region)\<close>, empty for an unknown region.\<close>

definition neighbors :: "string \<Rightarrow> string list" where
  "neighbors region = (case map_of STATE_NEIGHBORS region of None \<Rightarrow> [] | Some ns \<Rightarrow> ns)"

text \<open>The eight rules of the TargetScorer, each as the amount it adds.\<close>

definition rule_geography :: "(string \<Rightarrow> string) \<Rightarrow> broker \<Rightarrow> string \<Rightarrow> int" where
  "rule_geography u b home =
    (case address_state b of
       None \<Rightarrow> 0
     | Some r \<Rightarrow> if toUpperCase u r = home then 20
                else if toUpperCase u r \<in> set (neighbors home) then 10 else 0)"

definition lanes_of :: "string list option \<Rightarrow> string list" where
  "lanes_of ls = (case ls of None \<Rightarrow> [] | Some xs \<Rightarrow> xs)"

definition lane_matches :: "string list \<Rightarrow> string \<Rightarrow> bool" where
  "lane_matches brokerLanes l = list_ex (\<lambda>bl. sublist l bl \<or> sublist bl l) brokerLanes"

definition rule_lanes :: "broker \<Rightarrow> carrier_profile \<Rightarrow> int" where
  "rule_lanes b c =
    10 * int (length (filter (lane_matches (lanes_of (preferred_lanes b)))
                             (lanes_of (cp_preferred_lanes c))))"

definition rule_authority :: "broker \<Rightarrow> int" where
  "rule_authority b =
    (if authority_status b = Some ''active'' \<or> authority_status b = Some ''ACTIVE'' then 5 else 0)"

definition rule_credit :: "broker \<Rightarrow> int" where
  "rule_credit b =
    (case credit_score b of
       None \<Rightarrow> 0
     | Some c \<Rightarrow> if c \<ge> 90 then 10 else if c < 80 then - 15 else 0)"

definition rule_days_to_pay :: "broker \<Rightarrow> int" where
  "rule_days_to_pay b =
    (case days_to_pay b of
       None \<Rightarrow> 0
     | Some d \<Rightarrow> if d \<le> 15 then 10 else if d > 45 then - 5 else 0)"

definition rule_never_contacted :: "broker \<Rightarrow> int" where
  "rule_never_contacted b =
    (case outreach_status b of None \<Rightarrow> 5 | Some st \<Rightarrow> if st = ''new'' then 5 else 0)"

definition rule_bookings :: "broker \<Rightarrow> int" where
  "rule_bookings b = (case total_loads_booked b of None \<Rightarrow> 0 | Some n \<Rightarrow> 5 * n)"

definition rule_response_rate :: "broker \<Rightarrow> int" where
  "rule_response_rate b =
    (case response_rate b of None \<Rightarrow> 0 | Some r \<Rightarrow> if r > 50 then 10 else 0)"

definition spec_target_score ::
  "(string \<Rightarrow> string) \<Rightarrow> broker \<Rightarrow> carrier_profile \<Rightarrow> string \<Rightarrow> int" where
  "spec_target_score u b c home =
    clamp_range 0 100
      (50 + rule_geography u b home + rule_lanes b c + rule_authority b + rule_credit b
          + rule_days_to_pay b + rule_never_contacted b + rule_bookings b
          + rule_response_rate b)"

text \<open>The row as \<open>scoreBrokerTarget\<close> reads it: falsy values count as absent, and
  a load count that is not positive adds nothing.\<close>

definition as_read :: "broker \<Rightarrow> broker" where
  "as_read b =
    b \<lparr> credit_score := nonzero (credit_score b),
        days_to_pay := nonzero (days_to_pay b),
        outreach_status := nonempty (outreach_status b),
        total_loads_booked := map_option (max 0) (total_loads_booked b) \<rparr>"

definition scoring_fields_absent :: "broker \<Rightarrow> broker" where
  "scoring_fields_absent b =
    b \<lparr> credit_score := None, days_to_pay := None, response_rate := None,
        last_contact_date := None, total_outreach_attempts := None,
        total_responses := None, total_loads_booked := None, authority_status := None,
        insurance_on_file := None, outreach_status := None \<rparr>"

section \<open>Vocabulary of the campaign properties\<close>

text \<open>Provider credentials present: the e-mail and the voice handlers leave
  DEV MODE.\<close>

definition sendgrid_configured :: "env \<Rightarrow> bool" where
  "sendgrid_configured e =
    (truthy_str (SENDGRID_API_KEY e) \<and> truthy_str (SENDGRID_FROM_EMAIL e))"

definition twilio_configured :: "env \<Rightarrow> bool" where
  "twilio_configured e =
    (truthy_str (TWILIO_ACCOUNT_SID e) \<and> truthy_str (TWILIO_AUTH_TOKEN e)
     \<and> truthy_str (TWILIO_FROM_NUMBER e))"

text \<open>Every stored row of step \<open>i\<close> has status \<open>st\<close>; its reason mentions
  \<open>frag\<close>; it is no longer \<open>scheduled\<close>.\<close>

definition step_status :: "world \<Rightarrow> nat \<Rightarrow> string \<Rightarrow> bool" where
  "step_status w i st = (\<forall>x \<in> set (outreach_campaigns w). c_id x = i \<longrightarrow> status x = st)"

definition step_reason :: "world \<Rightarrow> nat \<Rightarrow> string \<Rightarrow> bool" where
  "step_reason w i frag =
    (\<forall>x \<in> set (outreach_campaigns w). c_id x = i \<longrightarrow>
       (\<exists>m. error_message x = Some m \<and> str_includes m frag))"

definition step_closed :: "world \<Rightarrow> nat \<Rightarrow> bool" where
  "step_closed w i = (\<forall>x \<in> set (outreach_campaigns w). c_id x = i \<longrightarrow> status x \<noteq> ''scheduled'')"

text \<open>What one handler run handed to the e-mail provider.\<close>

definition new_dispatches :: "world \<Rightarrow> world \<Rightarrow> dispatch list" where
  "new_dispatches w w' = drop (length (outbox w)) (outbox w')"

text \<open>The sweep's contact tracking of broker \<open>i\<close> between two worlds: the rows
  are the same brokers, those of broker \<open>i\<close> carry the new last-contact date, and
  a broker stored once has its attempt counter raised by one.\<close>

definition contact_tracked :: "int \<Rightarrow> string \<Rightarrow> world \<Rightarrow> world \<Rightarrow> bool" where
  "contact_tracked now i w w' =
    (map b_id (brokers w') = map b_id (brokers w)
     \<and> (\<forall>x \<in> set (brokers w'). b_id x = i \<longrightarrow> last_contact_date x = Some (Instant now))
     \<and> (\<forall>b0. filter (\<lambda>y. b_id y = i) (brokers w) = [b0] \<longrightarrow>
            filter (\<lambda>y. b_id y = i) (brokers w')
              = [b0 \<lparr> last_contact_date := Some (Instant now),
                      total_outreach_attempts := Some (or_zero (total_outreach_attempts b0) + 1) \<rparr>]))"

text \<open>The broker as the sweep sees it: a contact address, and an outreach status
  that does not stop the follow-up.\<close>

definition contact_address :: "pending \<Rightarrow> string option" where
  "contact_address p = (case p_broker p of None \<Rightarrow> None | Some b \<Rightarrow> nonempty (email b))"

definition broker_status :: "pending \<Rightarrow> string option" where
  "broker_status p = (case p_broker p of None \<Rightarrow> None | Some b \<Rightarrow> outreach_status b)"

definition is_conflict :: "error + 'a \<Rightarrow> bool" where
  "is_conflict r = (case r of Inl (ConflictError m i st) \<Rightarrow> True | _ \<Rightarrow> False)"

text \<open>The delivery block reports success: in DEV MODE always, otherwise when
  the provider accepts the next message.\<close>

definition delivery_succeeds :: "env \<Rightarrow> world \<Rightarrow> bool" where
  "delivery_succeeds e w =
    (if sendgrid_configured e
     then (case sgMail_send e (length (outbox w)) of
             Accepted mid \<Rightarrow> True
           | Rejected err \<Rightarrow> False)
     else True)"

section \<open>A small store for concrete runs\<close>

definition sample_carrier :: carrier_profile where
  "sample_carrier =
    \<lparr> user_id = ''u1'', owner_name = Some ''Dana'', cp_company_name = Some ''Dana Trucking'',
      home_base_state = Some ''NJ'', cp_preferred_lanes = Some [''NJ-FL''] \<rparr>"

definition sample_broker :: broker where
  "sample_broker =
    (blank_broker ''b1'' ''u1'')
      \<lparr> company_name := Some ''Acme Logistics'', email := Some ''ops@acme.test'',
        phone := Some ''+15550100'', total_outreach_attempts := Some 1,
        outreach_status := Some ''contacted'', address_state := Some ''CA'' \<rparr>"

definition sample_step :: "nat \<Rightarrow> int \<Rightarrow> string \<Rightarrow> int \<Rightarrow> campaign" where
  "sample_step i n st t =
    \<lparr> c_id = i, c_carrier_id = ''u1'', c_broker_id = ''b1'',
      campaign_type = (if n = 1 then ''cold_outreach'' else ''follow_up''),
      subject = ''Checking in'', body_text = ''Hello'', template_used = None,
      c_method = ''email'', status = st, sequence_step = n,
      parent_campaign_id = (if n = 1 then None else Some 1), scheduled_at = t,
      sent_at = (if st = ''sent'' \<or> st = ''replied'' then Some t else None),
      sendgrid_message_id = None, error_message = None, replied_at = None,
      broker_response = None, response_sentiment = None \<rparr>"

definition sample_template :: "string \<Rightarrow> string \<Rightarrow> int \<Rightarrow> int \<Rightarrow> email_template" where
  "sample_template n cat k d =
    \<lparr> t_name = n, t_carrier_id = None, category = cat, is_default = True,
      t_sequence_step = k, delay_days = d, subject_template = ''Hello {{broker_company}}'',
      body_template = ''From {{carrier_name}}'' \<rparr>"

definition sample_world :: "broker \<Rightarrow> campaign list \<Rightarrow> world" where
  "sample_world b cs =
    \<lparr> carrier_profiles = [sample_carrier], brokers = [b], outreach_campaigns = cs,
      email_templates = [sample_template ''initial_outreach'' ''initial'' 1 0,
                         sample_template ''follow_up_1'' ''follow_up'' 2 3,
                         sample_template ''follow_up_2'' ''follow_up'' 3 7],
      next_id = 10, outbox = [], calls = [] \<rparr>"

text \<open>An environment with all credentials set (\<open>live\<close>) or none, and providers
  that give the same answer to every request.\<close>

definition sample_env :: "bool \<Rightarrow> send_outcome \<Rightarrow> env" where
  "sample_env live answer =
    \<lparr> SENDGRID_API_KEY = (if live then Some ''SG.key'' else None),
      SENDGRID_FROM_EMAIL = (if live then Some ''dispatch@carrier.test'' else None),
      TWILIO_ACCOUNT_SID = (if live then Some ''AC1'' else None),
      TWILIO_AUTH_TOKEN = (if live then Some ''tok'' else None),
      TWILIO_FROM_NUMBER = (if live then Some ''+15550199'' else None),
      sgMail_send = (\<lambda>k. answer),
      calls_create = (\<lambda>k. Call_created ''CA1''),
      fillTemplate = (\<lambda>t c b. t),
      generateCallScript = (\<lambda>c b. ''Hi, may I speak with dispatch?''),
      response_rate_of = (\<lambda>r a. of_int r * 100 / of_int a) \<rparr>"

definition due_row :: "broker \<Rightarrow> pending" where
  "due_row b = join_row (sample_world b [sample_step 2 2 ''scheduled'' 100])
                 (sample_step 2 2 ''scheduled'' 100)"

text \<open>The broker of a fetched row passes the three guards of the sweep.\<close>

definition sendable :: "pending \<Rightarrow> bool" where
  "sendable p =
    (contact_address p \<noteq> None \<and> broker_status p \<noteq> Some ''responded''
     \<and> broker_status p \<noteq> Some ''active'' \<and> broker_status p \<noteq> Some ''blacklisted'')"

text \<open>The stored steps that a list of dispatches was made for.\<close>

definition dispatched_ids :: "dispatch list \<Rightarrow> nat option list" where
  "dispatched_ids ms = map (\<lambda>m. map_option c_id (for_step m)) ms"

section \<open>Properties of the RelationshipScorer\<close>

lemma paymentScore_range: "0 \<le> paymentScore b \<and> paymentScore b \<le> 25"
  by (simp add: paymentScore_def Let_def split: option.split)

lemma responseScore_range: "0 \<le> responseScore now b \<and> responseScore now b \<le> 25"
  by (simp add: responseScore_def Let_def split: option.split js_date.split)

lemma revenueScore_range: "0 \<le> revenueScore b \<and> revenueScore b \<le> 25"
  by (simp add: revenueScore_def)

lemma reliabilityScore_range: "0 \<le> reliabilityScore b \<and> reliabilityScore b \<le> 25"
  by (simp add: reliabilityScore_def Let_def)

lemma payment_of_score:
  "payment (breakdown (calculateRelationshipScore now b)) = paymentScore b"
  by (simp add: calculateRelationshipScore_def Let_def)

text \<open>
  C8 as stated fails: a \<open>credit_score\<close> of 0 is falsy, so the tiers are skipped and
  the payment sub-score stays at the default 15 (the claim says 5); a \<open>days_to_pay\<close>
  of 0 is falsy too, so no adjustment is made (the claim says +5, that is 20).
\<close>

theorem C8_zero_counterexample:
  "payment (breakdown (calculateRelationshipScore 0
      ((blank_broker ''b1'' ''u1'') \<lparr> credit_score := Some 0 \<rparr>))) = 15
   \<and> spec_payment (Some 0) None = 5
   \<and> payment (breakdown (calculateRelationshipScore 0
      ((blank_broker ''b1'' ''u1'') \<lparr> days_to_pay := Some 0 \<rparr>))) = 15
   \<and> spec_payment None (Some 0) = 20"
  by (simp add: payment_of_score paymentScore_def blank_broker_def
      spec_payment_def spec_payment_base_def spec_payment_adjust_def clamp_range_def)

text \<open>
  C8, amended: for every broker record the payment sub-score is the specified rule
  applied to the fields that are present and not 0: default 15 when \<open>credit_score\<close>
  is absent or 0, otherwise the tiers 95/90/85/80; the adjustment +5 / +3 / -5 when
  \<open>days_to_pay\<close> is present and not 0; the result clamped into [0,25].
\<close>

theorem C8_payment_rule:
  "payment (breakdown (calculateRelationshipScore now b))
     = spec_payment (nonzero (credit_score b)) (nonzero (days_to_pay b))
   \<and> 0 \<le> payment (breakdown (calculateRelationshipScore now b))
   \<and> payment (breakdown (calculateRelationshipScore now b)) \<le> 25"
proof -
  have eq: "paymentScore b = spec_payment (nonzero (credit_score b)) (nonzero (days_to_pay b))"
    by (simp add: paymentScore_def spec_payment_def spec_payment_base_def
        spec_payment_adjust_def clamp_range_def nonzero_def Let_def split: option.split)
  show ?thesis
    using eq paymentScore_range [of b] by (simp add: payment_of_score)
qed

theorem C8_payment_rule_witness:
  "payment (breakdown (calculateRelationshipScore 0
      ((blank_broker ''b1'' ''u1'') \<lparr> credit_score := Some 92, days_to_pay := Some 5 \<rparr>))) = 25"
  using C8_payment_rule [of 0 "(blank_broker ''b1'' ''u1'') \<lparr> credit_score := Some 92, days_to_pay := Some 5 \<rparr>"]
  by (simp add: blank_broker_def spec_payment_def spec_payment_base_def
      spec_payment_adjust_def clamp_range_def nonzero_def)

text \<open>
  C9: for every broker record and every clock reading, \<open>calculateRelationshipScore\<close>
  returns a result (the function reads fields, compares and adds; it has no failing
  branch) whose total lies in [0,100]; with every scoring-relevant field absent the
  sub-scores are payment 15, responsiveness 10, revenue 0, reliability 10, total 35.
\<close>

theorem C9_total_range_and_defaults:
  "0 \<le> score (calculateRelationshipScore now b)
   \<and> score (calculateRelationshipScore now b) \<le> 100
   \<and> breakdown (calculateRelationshipScore now (scoring_fields_absent b))
       = \<lparr> payment = 15, responsiveness = 10, revenue = 0, reliability = 10 \<rparr>
   \<and> score (calculateRelationshipScore now (scoring_fields_absent b)) = 35"
proof -
  have total: "score (calculateRelationshipScore now b)
      = min 100 (paymentScore b + responseScore now b + revenueScore b + reliabilityScore b)"
    by (simp add: calculateRelationshipScore_def Let_def)
  have range: "0 \<le> score (calculateRelationshipScore now b)
      \<and> score (calculateRelationshipScore now b) \<le> 100"
    using paymentScore_range [of b] responseScore_range [of now b]
      revenueScore_range [of b] reliabilityScore_range [of b]
    unfolding total by simp
  have p: "paymentScore (scoring_fields_absent b) = 15"
    by (simp add: paymentScore_def scoring_fields_absent_def)
  have r: "responseScore now (scoring_fields_absent b) = 10"
    by (simp add: responseScore_def scoring_fields_absent_def)
  have v: "revenueScore (scoring_fields_absent b) = 0"
    by (simp add: revenueScore_def scoring_fields_absent_def)
  have l: "reliabilityScore (scoring_fields_absent b) = 10"
    by (simp add: reliabilityScore_def scoring_fields_absent_def)
  have defaults: "calculateRelationshipScore now (scoring_fields_absent b)
      = \<lparr> score = 35,
          breakdown = \<lparr> payment = 15, responsiveness = 10, revenue = 0, reliability = 10 \<rparr> \<rparr>"
    by (simp add: calculateRelationshipScore_def p r v l)
  show ?thesis
    using range defaults by simp
qed

section \<open>Properties of the TargetScorer\<close>

lemma geo_step_adds: "fst (geo_step u b home a) = fst a + rule_geography u b home"
  by (auto simp: geo_step_def rule_geography_def is_neighbor_def neighbors_def
      split: option.splits)

lemma lane_overlap_filter:
  "lane_overlap carrierLanes brokerLanes = filter (lane_matches brokerLanes) carrierLanes"
proof -
  have "(\<lambda>l. list_ex (\<lambda>bl. str_includes bl l \<or> str_includes l bl) brokerLanes)
      = lane_matches brokerLanes"
    by (simp add: lane_matches_def str_includes_def fun_eq_iff)
  then show ?thesis
    by (simp add: lane_overlap_def)
qed

lemma no_lane_matches_empty: "filter (lane_matches []) ls = []"
  by (induction ls) (simp_all add: lane_matches_def)

lemma lane_step_adds: "fst (lane_step b c a) = fst a + rule_lanes b c"
proof (cases "lanes_of (cp_preferred_lanes c) = [] \<or> lanes_of (preferred_lanes b) = []")
  case True
  then show ?thesis
    by (auto simp: lane_step_def rule_lanes_def lanes_of_def no_lane_matches_empty
        split: option.splits)
next
  case False
  then show ?thesis
    by (auto simp: lane_step_def rule_lanes_def lanes_of_def lane_overlap_filter Let_def
        split: option.splits)
qed

lemma authority_step_adds: "fst (authority_step b a) = fst a + rule_authority b"
  by (auto simp: authority_step_def rule_authority_def)

lemma credit_step_adds: "fst (credit_step b a) = fst a + rule_credit (as_read b)"
  by (cases "credit_score b")
    (auto simp: credit_step_def rule_credit_def as_read_def nonzero_def)

lemma pay_step_adds: "fst (pay_step b a) = fst a + rule_days_to_pay (as_read b)"
  by (cases "days_to_pay b")
    (auto simp: pay_step_def rule_days_to_pay_def as_read_def nonzero_def)

lemma new_step_adds: "fst (new_step b a) = fst a + rule_never_contacted (as_read b)"
  by (cases "outreach_status b")
    (auto simp: new_step_def rule_never_contacted_def as_read_def nonempty_def)

lemma loads_step_adds: "fst (loads_step b a) = fst a + rule_bookings (as_read b)"
  by (cases "total_loads_booked b")
    (auto simp: loads_step_def rule_bookings_def as_read_def)

lemma rate_step_adds: "fst (rate_step b a) = fst a + rule_response_rate b"
  by (cases "response_rate b") (auto simp: rate_step_def rule_response_rate_def)

lemma as_read_other_rules:
  "rule_geography u (as_read b) home = rule_geography u b home"
  "rule_lanes (as_read b) c = rule_lanes b c"
  "rule_authority (as_read b) = rule_authority b"
  "rule_response_rate (as_read b) = rule_response_rate b"
  by (simp_all add: as_read_def rule_geography_def rule_lanes_def rule_authority_def
      rule_response_rate_def)

text \<open>
  C7 as stated fails: a \<open>credit_score\<close> of 0 is present and below 80, so the
  reference definition subtracts 15 (50 - 15 + 5 = 40), while the code tests
  \<open>broker.credit_score && ...\<close> and leaves such a broker at 50 + 5 = 55.
\<close>

theorem C7_zero_credit_counterexample:
  "target_score (scoreBrokerTarget (\<lambda>s. s) ((blank_broker ''b1'' ''u1'') \<lparr> credit_score := Some 0 \<rparr>)
      \<lparr> user_id = ''u1'', owner_name = None, cp_company_name = None,
        home_base_state = Some ''NJ'', cp_preferred_lanes = None \<rparr> ''NJ'') = 55
   \<and> spec_target_score (\<lambda>s. s) ((blank_broker ''b1'' ''u1'') \<lparr> credit_score := Some 0 \<rparr>)
      \<lparr> user_id = ''u1'', owner_name = None, cp_company_name = None,
        home_base_state = Some ''NJ'', cp_preferred_lanes = None \<rparr> ''NJ'' = 40"
  by (simp add: scoreBrokerTarget_def geo_step_def is_neighbor_def lane_step_def
      authority_step_def credit_step_def pay_step_def new_step_def loads_step_def
      rate_step_def spec_target_score_def rule_geography_def rule_lanes_def lanes_of_def
      rule_authority_def rule_credit_def rule_days_to_pay_def rule_never_contacted_def
      rule_bookings_def rule_response_rate_def clamp_range_def blank_broker_def
      split: option.split)

text \<open>
  C7, amended: for every broker record, carrier profile and home region code, the
  score of \<open>scoreBrokerTarget\<close> is the reference definition (base 50, the eight
  rules, clamped to [0,100]) evaluated on the row as the code reads it: a
  \<open>credit_score\<close> or \<open>days_to_pay\<close> of 0 counts as absent, an empty
  \<open>outreach_status\<close> counts as absent, a load count below 1 adds nothing, the
  broker's region is compared upper-cased, and the authority status is active when
  it is the string \<open>active\<close> or \<open>ACTIVE\<close>. The result lies in [0,100].
\<close>

theorem C7_target_score_reference:
  "target_score (scoreBrokerTarget u b c home) = spec_target_score u (as_read b) c home
   \<and> 0 \<le> target_score (scoreBrokerTarget u b c home)
   \<and> target_score (scoreBrokerTarget u b c home) \<le> 100"
proof -
  have sum: "fst (rate_step b (loads_step b (new_step b (pay_step b (credit_step b
        (authority_step b (lane_step b c (geo_step u b home (50, [])))))))))
      = 50 + rule_geography u b home + rule_lanes b c + rule_authority b
          + rule_credit (as_read b) + rule_days_to_pay (as_read b)
          + rule_never_contacted (as_read b) + rule_bookings (as_read b)
          + rule_response_rate b"
    by (simp only: rate_step_adds loads_step_adds new_step_adds pay_step_adds
        credit_step_adds authority_step_adds lane_step_adds geo_step_adds fst_conv)
  have "target_score (scoreBrokerTarget u b c home) = spec_target_score u (as_read b) c home"
    unfolding scoreBrokerTarget_def Let_def spec_target_score_def as_read_other_rules
    by (simp add: sum clamp_range_def)
  moreover have "0 \<le> target_score (scoreBrokerTarget u b c home)
      \<and> target_score (scoreBrokerTarget u b c home) \<le> 100"
    by (simp add: scoreBrokerTarget_def Let_def)
  ultimately show ?thesis
    by simp
qed

theorem C7_target_score_reference_witness:
  "target_score (scoreBrokerTarget (\<lambda>s. s)
      ((blank_broker ''b7'' ''u1'')
         \<lparr> credit_score := Some 95, days_to_pay := Some 10, response_rate := Some 60,
           total_loads_booked := Some 12, authority_status := Some ''ACTIVE'',
           outreach_status := Some ''contacted'', address_state := Some ''ny'',
           preferred_lanes := Some [''NJ-FL'', ''NY-TX''] \<rparr>)
      \<lparr> user_id = ''u1'', owner_name = None, cp_company_name = None,
        home_base_state = Some ''NJ'', cp_preferred_lanes = Some [''NJ-FL''] \<rparr> ''NJ'') = 100"
  using C7_target_score_reference [of "\<lambda>s. s"
      "(blank_broker ''b7'' ''u1'')
         \<lparr> credit_score := Some 95, days_to_pay := Some 10, response_rate := Some 60,
           total_loads_booked := Some 12, authority_status := Some ''ACTIVE'',
           outreach_status := Some ''contacted'', address_state := Some ''ny'',
           preferred_lanes := Some [''NJ-FL'', ''NY-TX''] \<rparr>"
      "\<lparr> user_id = ''u1'', owner_name = None, cp_company_name = None,
        home_base_state = Some ''NJ'', cp_preferred_lanes = Some [''NJ-FL''] \<rparr>" "''NJ''"]
  by (simp add: spec_target_score_def rule_geography_def rule_lanes_def lanes_of_def
      lane_matches_def rule_authority_def rule_credit_def rule_days_to_pay_def
      rule_never_contacted_def rule_bookings_def rule_response_rate_def clamp_range_def
      blank_broker_def as_read_def nonzero_def nonempty_def neighbors_def
      STATE_NEIGHBORS_def toUpperCase_def is_ascii_def upper_char_def)

section \<open>Properties of the ComplianceWindow\<close>

lemma too_early_mentions_early: "str_includes (''Too early in '' @ rest) ''early''"
proof -
  have "''Too early in '' @ rest = ''Too '' @ ''early'' @ ('' in '' @ rest)"
    by simp
  then show ?thesis
    unfolding str_includes_def by (metis sublist_appendI)
qed

lemma too_late_mentions_late: "str_includes (''Too late in '' @ rest) ''late''"
proof -
  have "''Too late in '' @ rest = ''Too '' @ ''late'' @ ('' in '' @ rest)"
    by simp
  then show ?thesis
    unfolding str_includes_def by (metis sublist_appendI)
qed

lemma unknown_region_rules:
  "map_of STATE_RULES (toUpperCase u code) = None \<Longrightarrow>
   getStateRules u code
     = FEDERAL_DEFAULT \<lparr> state := toUpperCase u code, name := toUpperCase u code \<rparr>
   \<and> call_start_hour (getStateRules u code) = 8 \<and> call_end_hour (getStateRules u code) = 21
   \<and> \<not> state_dnc_registry (getStateRules u code)
   \<and> timezone (getStateRules u code) = ''America/New_York''"
  by (simp add: getStateRules_def FEDERAL_DEFAULT_def)

lemma listed_keys: "map fst STATE_RULES = listed_regions"
  by (simp add: STATE_RULES_def listed_regions_def)

lemma listed_region_rules:
  assumes "(toUpperCase u code, r) \<in> set STATE_RULES"
  shows "getStateRules u code = r"
proof -
  have "distinct (map fst STATE_RULES)"
    by (simp add: listed_keys listed_regions_def)
  then have "map_of STATE_RULES (toUpperCase u code) = Some r"
    using assms by (rule map_of_is_SomeI)
  then show ?thesis
    by (simp add: getStateRules_def)
qed

lemma unknown_iff_not_listed:
  "(map_of STATE_RULES k = None) = (k \<notin> set listed_regions)"
proof -
  have "set listed_regions = fst ` set STATE_RULES"
    using listed_keys by (metis set_map)
  then show ?thesis
    by (simp add: map_of_eq_None_iff)
qed

lemma rules_by_region:
  "timezone (getStateRules u code) = zone_of_region (toUpperCase u code)
   \<and> call_start_hour (getStateRules u code) = 8
   \<and> call_end_hour (getStateRules u code) = 21
   \<and> state_dnc_registry (getStateRules u code) = (toUpperCase u code \<in> set listed_regions)"
proof (cases "map_of STATE_RULES (toUpperCase u code)")
  case None
  then have "toUpperCase u code \<notin> set listed_regions"
    by (simp add: unknown_iff_not_listed)
  moreover from this have "zone_of_region (toUpperCase u code) = ''America/New_York''"
    by (auto simp: zone_of_region_def listed_regions_def)
  ultimately show ?thesis
    using unknown_region_rules [OF None] by (simp add: FEDERAL_DEFAULT_def)
next
  case (Some r)
  then have "toUpperCase u code \<in> set listed_regions"
    using unknown_iff_not_listed [of "toUpperCase u code"] by simp
  moreover have "(toUpperCase u code, r) \<in> set STATE_RULES"
    using Some by (rule map_of_SomeD)
  then have "timezone r = zone_of_region (toUpperCase u code)
      \<and> call_start_hour r = 8 \<and> call_end_hour r = 21 \<and> state_dnc_registry r"
    by (auto simp: STATE_RULES_def mk_rule_def zone_of_region_def)
  ultimately show ?thesis
    using Some by (simp add: getStateRules_def)
qed

lemma canCallNow_early:
  "fst (localTime (timezone (getStateRules u code))) < call_start_hour (getStateRules u code) \<Longrightarrow>
   \<not> allowed (canCallNow u localTime code)
   \<and> str_includes (reason (canCallNow u localTime code)) ''early''"
  using too_early_mentions_early by (simp add: canCallNow_def Let_def)

lemma canCallNow_late:
  "call_start_hour (getStateRules u code) \<le> call_end_hour (getStateRules u code) \<Longrightarrow>
   call_end_hour (getStateRules u code) \<le> fst (localTime (timezone (getStateRules u code))) \<Longrightarrow>
   \<not> allowed (canCallNow u localTime code)
   \<and> str_includes (reason (canCallNow u localTime code)) ''late''"
  using too_late_mentions_late by (simp add: canCallNow_def Let_def)

lemma canCallNow_inside:
  "call_start_hour (getStateRules u code) \<le> fst (localTime (timezone (getStateRules u code))) \<Longrightarrow>
   fst (localTime (timezone (getStateRules u code))) < call_end_hour (getStateRules u code) \<Longrightarrow>
   allowed (canCallNow u localTime code)"
  by (simp add: canCallNow_def Let_def)

lemma canCallNow_by_region:
  "allowed (canCallNow u localTime code)
     = (8 \<le> fst (localTime (zone_of_region (toUpperCase u code)))
        \<and> fst (localTime (zone_of_region (toUpperCase u code))) < 21)"
  using rules_by_region [of u code] by (simp add: canCallNow_def Let_def)

lemma upper_of_CA: "toUpperCase u ''CA'' = ''CA''"
  by (simp add: toUpperCase_def is_ascii_def upper_char_def)

lemma rules_of_CA:
  "getStateRules u ''CA'' = mk_rule ''CA'' ''California'' ''America/Los_Angeles''
         [''Requires written consent for automated calls'',
          ''Must identify caller within first 30 seconds'']"
  by (simp add: getStateRules_def upper_of_CA STATE_RULES_def)

text \<open>
  C6: for every region code and every reading of the local clocks, the region is
  evaluated with its own rule record: a listed region (its code upper-cased) with
  the record of the table, an unknown region with the federal default, window
  [8, 21), registry flag false. The clock that is read is the one of the region's
  time zone (America/Los_Angeles for CA, America/Chicago for TX and IL,
  America/New_York for the other listed regions and for the federal default). The
  result is not allowed and its reason mentions "early" when that local hour is
  below the window start, not allowed and its reason mentions "late" when it is at
  or past the window end, and allowed otherwise. For region "CA" at local hour 7 the
  result is not allowed with a reason mentioning "early", and at local hour 10 it is
  allowed.
\<close>

theorem C6_compliance_window:
  "(map_of STATE_RULES (toUpperCase u code) = None \<longrightarrow>
      getStateRules u code
        = FEDERAL_DEFAULT \<lparr> state := toUpperCase u code, name := toUpperCase u code \<rparr>
      \<and> call_start_hour (getStateRules u code) = 8 \<and> call_end_hour (getStateRules u code) = 21
      \<and> \<not> state_dnc_registry (getStateRules u code))
   \<and> (\<forall>r. (toUpperCase u code, r) \<in> set STATE_RULES \<longrightarrow> getStateRules u code = r)
   \<and> timezone (getStateRules u code) = zone_of_region (toUpperCase u code)
   \<and> call_start_hour (getStateRules u code) = 8
   \<and> call_end_hour (getStateRules u code) = 21
   \<and> state_dnc_registry (getStateRules u code) = (toUpperCase u code \<in> set listed_regions)
   \<and> allowed (canCallNow u localTime code)
        = (8 \<le> fst (localTime (zone_of_region (toUpperCase u code)))
           \<and> fst (localTime (zone_of_region (toUpperCase u code))) < 21)
   \<and> (fst (localTime (zone_of_region (toUpperCase u code))) < 8 \<longrightarrow>
        \<not> allowed (canCallNow u localTime code)
        \<and> str_includes (reason (canCallNow u localTime code)) ''early'')
   \<and> (21 \<le> fst (localTime (zone_of_region (toUpperCase u code))) \<longrightarrow>
        \<not> allowed (canCallNow u localTime code)
        \<and> str_includes (reason (canCallNow u localTime code)) ''late'')
   \<and> (fst (localTime (timezone (getStateRules u code))) < call_start_hour (getStateRules u code) \<longrightarrow>
        \<not> allowed (canCallNow u localTime code)
        \<and> str_includes (reason (canCallNow u localTime code)) ''early'')
   \<and> (call_end_hour (getStateRules u code) \<le> fst (localTime (timezone (getStateRules u code))) \<longrightarrow>
        \<not> allowed (canCallNow u localTime code)
        \<and> str_includes (reason (canCallNow u localTime code)) ''late'')
   \<and> (call_start_hour (getStateRules u code) \<le> fst (localTime (timezone (getStateRules u code)))
        \<and> fst (localTime (timezone (getStateRules u code))) < call_end_hour (getStateRules u code) \<longrightarrow>
        allowed (canCallNow u localTime code))
   \<and> (fst (localTime ''America/Los_Angeles'') = 7 \<longrightarrow>
        \<not> allowed (canCallNow u localTime ''CA'')
        \<and> str_includes (reason (canCallNow u localTime ''CA'')) ''early'')
   \<and> (fst (localTime ''America/Los_Angeles'') = 10 \<longrightarrow>
        allowed (canCallNow u localTime ''CA''))"
proof -
  have unknown: "map_of STATE_RULES (toUpperCase u code) = None \<longrightarrow>
      getStateRules u code
        = FEDERAL_DEFAULT \<lparr> state := toUpperCase u code, name := toUpperCase u code \<rparr>
      \<and> call_start_hour (getStateRules u code) = 8 \<and> call_end_hour (getStateRules u code) = 21
      \<and> \<not> state_dnc_registry (getStateRules u code)"
    using unknown_region_rules [of u code] by blast
  have listed: "\<forall>r. (toUpperCase u code, r) \<in> set STATE_RULES \<longrightarrow> getStateRules u code = r"
    using listed_region_rules by blast
  note pinned = rules_by_region [of u code]
  have early: "fst (localTime (timezone (getStateRules u code))) < call_start_hour (getStateRules u code) \<longrightarrow>
        \<not> allowed (canCallNow u localTime code)
        \<and> str_includes (reason (canCallNow u localTime code)) ''early''"
    using canCallNow_early [of localTime u code] by blast
  have late: "call_end_hour (getStateRules u code) \<le> fst (localTime (timezone (getStateRules u code))) \<longrightarrow>
      \<not> allowed (canCallNow u localTime code)
      \<and> str_includes (reason (canCallNow u localTime code)) ''late''"
    using canCallNow_late [of u code localTime] pinned by simp
  have inside: "call_start_hour (getStateRules u code) \<le> fst (localTime (timezone (getStateRules u code)))
        \<and> fst (localTime (timezone (getStateRules u code))) < call_end_hour (getStateRules u code) \<longrightarrow>
        allowed (canCallNow u localTime code)"
    using canCallNow_inside [of u code localTime] by blast
  have early': "fst (localTime (zone_of_region (toUpperCase u code))) < 8 \<longrightarrow>
        \<not> allowed (canCallNow u localTime code)
        \<and> str_includes (reason (canCallNow u localTime code)) ''early''"
    using early pinned by simp
  have late': "21 \<le> fst (localTime (zone_of_region (toUpperCase u code))) \<longrightarrow>
        \<not> allowed (canCallNow u localTime code)
        \<and> str_includes (reason (canCallNow u localTime code)) ''late''"
    using late pinned by simp
  have ca7: "fst (localTime ''America/Los_Angeles'') = 7 \<longrightarrow>
      \<not> allowed (canCallNow u localTime ''CA'')
      \<and> str_includes (reason (canCallNow u localTime ''CA'')) ''early''"
    using canCallNow_early [of localTime u "''CA''"] by (simp add: rules_of_CA mk_rule_def)
  have ca10: "fst (localTime ''America/Los_Angeles'') = 10 \<longrightarrow>
      allowed (canCallNow u localTime ''CA'')"
    using canCallNow_inside [of u "''CA''" localTime] by (simp add: rules_of_CA mk_rule_def)
  show ?thesis
    using unknown listed pinned [THEN conjunct1] pinned [THEN conjunct2, THEN conjunct1]
      pinned [THEN conjunct2, THEN conjunct2, THEN conjunct1]
      pinned [THEN conjunct2, THEN conjunct2, THEN conjunct2]
      canCallNow_by_region [of u localTime code] early' late' early late inside ca7 ca10
    by (intro conjI) (assumption+)
qed

theorem C6_compliance_window_witness:
  "map_of STATE_RULES (toUpperCase (\<lambda>s. s) ''zz'') = None
   \<and> call_start_hour (getStateRules (\<lambda>s. s) ''zz'') = 8
   \<and> call_end_hour (getStateRules (\<lambda>s. s) ''zz'') = 21
   \<and> \<not> state_dnc_registry (getStateRules (\<lambda>s. s) ''zz'')
   \<and> \<not> allowed (canCallNow (\<lambda>s. s) (\<lambda>tz. (22, 15)) ''zz'')
   \<and> str_includes (reason (canCallNow (\<lambda>s. s) (\<lambda>tz. (22, 15)) ''zz'')) ''late''
   \<and> \<not> allowed (canCallNow (\<lambda>s. s) (\<lambda>tz. (7, 59)) ''CA'')
   \<and> str_includes (reason (canCallNow (\<lambda>s. s) (\<lambda>tz. (7, 59)) ''CA'')) ''early''
   \<and> allowed (canCallNow (\<lambda>s. s) (\<lambda>tz. (10, 0)) ''CA'')
   \<and> getStateRules (\<lambda>s. s) ''ny''
        = mk_rule ''NY'' ''New York'' ''America/New_York'' [''Must register with NY DNC'']
   \<and> allowed (canCallNow (\<lambda>s. s)
        (\<lambda>tz. if tz = ''America/New_York'' then (9, 0) else (6, 0)) ''ny'')
   \<and> \<not> allowed (canCallNow (\<lambda>s. s)
        (\<lambda>tz. if tz = ''America/New_York'' then (9, 0) else (6, 0)) ''CA'')
   \<and> \<not> allowed (canCallNow (\<lambda>s. s)
        (\<lambda>tz. if tz = ''America/Chicago'' then (21, 0) else (12, 0)) ''tx'')"
proof -
  have up: "toUpperCase (\<lambda>s. s) ''zz'' = ''ZZ''" "toUpperCase (\<lambda>s. s) ''ny'' = ''NY''"
    "toUpperCase (\<lambda>s. s) ''tx'' = ''TX''" "toUpperCase (\<lambda>s. s) ''CA'' = ''CA''"
    by (simp_all add: toUpperCase_def is_ascii_def upper_char_def)
  have unknown: "map_of STATE_RULES ''ZZ'' = None"
    by (simp add: STATE_RULES_def)
  have ny: "(''NY'', mk_rule ''NY'' ''New York'' ''America/New_York'' [''Must register with NY DNC''])
      \<in> set STATE_RULES"
    by (simp add: STATE_RULES_def)
  have zones: "zone_of_region ''ZZ'' = ''America/New_York''"
    "zone_of_region ''NY'' = ''America/New_York''"
    "zone_of_region ''TX'' = ''America/Chicago''"
    "zone_of_region ''CA'' = ''America/Los_Angeles''"
    by (simp_all add: zone_of_region_def)
  have zz: "call_start_hour (getStateRules (\<lambda>s. s) ''zz'') = 8
      \<and> call_end_hour (getStateRules (\<lambda>s. s) ''zz'') = 21
      \<and> \<not> state_dnc_registry (getStateRules (\<lambda>s. s) ''zz'')
      \<and> \<not> allowed (canCallNow (\<lambda>s. s) (\<lambda>tz. (22, 15)) ''zz'')
      \<and> str_includes (reason (canCallNow (\<lambda>s. s) (\<lambda>tz. (22, 15)) ''zz'')) ''late''"
    using C6_compliance_window [of "\<lambda>s. s" "''zz''" "\<lambda>tz. (22, 15)"] unknown
    by (simp only: up zones) (simp add: FEDERAL_DEFAULT_def)
  have ca7: "\<not> allowed (canCallNow (\<lambda>s. s) (\<lambda>tz. (7, 59)) ''CA'')
      \<and> str_includes (reason (canCallNow (\<lambda>s. s) (\<lambda>tz. (7, 59)) ''CA'')) ''early''"
    using C6_compliance_window [of "\<lambda>s. s" "''CA''" "\<lambda>tz. (7, 59)"]
    by (simp only: up zones) (simp add: FEDERAL_DEFAULT_def)
  have ca10: "allowed (canCallNow (\<lambda>s. s) (\<lambda>tz. (10, 0)) ''CA'')"
    using C6_compliance_window [of "\<lambda>s. s" "''CA''" "\<lambda>tz. (10, 0)"]
    by (simp only: up zones) (simp add: FEDERAL_DEFAULT_def)
  have ny_rules: "getStateRules (\<lambda>s. s) ''ny''
        = mk_rule ''NY'' ''New York'' ''America/New_York'' [''Must register with NY DNC'']"
    using C6_compliance_window [of "\<lambda>s. s" "''ny''" "\<lambda>tz. (0, 0)",
        THEN conjunct2, THEN conjunct1] ny
    by (simp only: up)
  have ny9: "allowed (canCallNow (\<lambda>s. s)
        (\<lambda>tz. if tz = ''America/New_York'' then (9, 0) else (6, 0)) ''ny'')"
    using C6_compliance_window [of "\<lambda>s. s" "''ny''"
        "\<lambda>tz. if tz = ''America/New_York'' then (9, 0) else (6, 0)",
        THEN conjunct2, THEN conjunct2]
    by (simp only: up zones) simp
  have ca6: "\<not> allowed (canCallNow (\<lambda>s. s)
        (\<lambda>tz. if tz = ''America/New_York'' then (9, 0) else (6, 0)) ''CA'')"
    using C6_compliance_window [of "\<lambda>s. s" "''CA''"
        "\<lambda>tz. if tz = ''America/New_York'' then (9, 0) else (6, 0)",
        THEN conjunct2, THEN conjunct2]
    by (simp only: up zones) simp
  have tx21: "\<not> allowed (canCallNow (\<lambda>s. s)
        (\<lambda>tz. if tz = ''America/Chicago'' then (21, 0) else (12, 0)) ''tx'')"
    using C6_compliance_window [of "\<lambda>s. s" "''tx''"
        "\<lambda>tz. if tz = ''America/Chicago'' then (21, 0) else (12, 0)",
        THEN conjunct2, THEN conjunct2]
    by (simp only: up zones) simp
  show ?thesis
    using unknown zz ca7 ca10 ny_rules ny9 ca6 tx21 by (simp only: up simp_thms)
qed

section \<open>Properties of the store operations\<close>

lemma update_campaigns_frame [simp]:
  "brokers (update_campaigns P f w) = brokers w"
  "outbox (update_campaigns P f w) = outbox w"
  "calls (update_campaigns P f w) = calls w"
  "carrier_profiles (update_campaigns P f w) = carrier_profiles w"
  "email_templates (update_campaigns P f w) = email_templates w"
  "next_id (update_campaigns P f w) = next_id w"
  by (simp_all add: update_campaigns_def)

lemma update_campaigns_rows:
  "outreach_campaigns (update_campaigns P f w)
     = map (\<lambda>c. if P c then f c else c) (outreach_campaigns w)"
  by (simp add: update_campaigns_def)

lemma ball_map_if:
  "(\<forall>x \<in> set (map (\<lambda>c. if P c then f c else c) xs). Q x)
     = (\<forall>c \<in> set xs. if P c then Q (f c) else Q c)"
  by (induction xs) simp_all

lemma ball_update_campaigns:
  "(\<forall>x \<in> set (outreach_campaigns (update_campaigns P f w)). Q x)
     = (\<forall>c \<in> set (outreach_campaigns w). if P c then Q (f c) else Q c)"
  by (simp only: update_campaigns_rows ball_map_if)

lemma update_brokers_frame [simp]:
  "outreach_campaigns (update_brokers P f w) = outreach_campaigns w"
  "outbox (update_brokers P f w) = outbox w"
  "calls (update_brokers P f w) = calls w"
  "carrier_profiles (update_brokers P f w) = carrier_profiles w"
  "email_templates (update_brokers P f w) = email_templates w"
  "next_id (update_brokers P f w) = next_id w"
  by (simp_all add: update_brokers_def)

lemma update_brokers_rows:
  "brokers (update_brokers P f w) = map (\<lambda>b. if P b then f b else b) (brokers w)"
  by (simp add: update_brokers_def)

lemma ball_update_brokers:
  "(\<forall>x \<in> set (brokers (update_brokers P f w)). Q x)
     = (\<forall>b \<in> set (brokers w). if P b then Q (f b) else Q b)"
  by (simp only: update_brokers_rows ball_map_if)

lemma deliver_frame [simp]:
  "brokers (snd (deliver e a n s t st w)) = brokers w"
  "outreach_campaigns (snd (deliver e a n s t st w)) = outreach_campaigns w"
  "calls (snd (deliver e a n s t st w)) = calls w"
  "carrier_profiles (snd (deliver e a n s t st w)) = carrier_profiles w"
  "email_templates (snd (deliver e a n s t st w)) = email_templates w"
  "next_id (snd (deliver e a n s t st w)) = next_id w"
  by (simp_all add: deliver_def Let_def split: send_outcome.split)

lemma deliver_dev:
  "\<not> sendgrid_configured e \<Longrightarrow>
   deliver e a n s t st w = (\<lparr> success = True, messageId = ''dev-mode'', send_error = [] \<rparr>, w)"
  by (auto simp: deliver_def sendgrid_configured_def)

lemma deliver_accepted:
  "sendgrid_configured e \<Longrightarrow> sgMail_send e (length (outbox w)) = Accepted mid \<Longrightarrow>
   success (fst (deliver e a n s t st w)) \<and>
   (\<exists>m. outbox (snd (deliver e a n s t st w)) = outbox w @ [m] \<and> to_addr m = a \<and> for_step m = st)"
  by (auto simp: deliver_def sendgrid_configured_def Let_def)

lemma deliver_rejected:
  "sendgrid_configured e \<Longrightarrow> sgMail_send e (length (outbox w)) = Rejected err \<Longrightarrow>
   \<not> success (fst (deliver e a n s t st w)) \<and>
   (\<exists>m. outbox (snd (deliver e a n s t st w)) = outbox w @ [m] \<and> to_addr m = a \<and> for_step m = st)"
  by (auto simp: deliver_def sendgrid_configured_def Let_def)

section \<open>One step of the sweep\<close>

lemma close_step_frame [simp]:
  "brokers (close_step i st msg w) = brokers w"
  "outbox (close_step i st msg w) = outbox w"
  by (simp_all add: close_step_def)

lemma close_step_ids [simp]:
  "map c_id (outreach_campaigns (close_step i st msg w)) = map c_id (outreach_campaigns w)"
  by (simp add: close_step_def update_campaigns_rows comp_def)

lemma close_step_status: "step_status (close_step i st msg w) i st"
  by (simp add: step_status_def close_step_def ball_update_campaigns)

lemma close_step_reason: "str_includes msg frag \<Longrightarrow> step_reason (close_step i st msg w) i frag"
  by (simp add: step_reason_def close_step_def ball_update_campaigns)

lemma record_delivery_frame [simp]:
  "brokers (record_delivery now i r w) = brokers w"
  "outbox (record_delivery now i r w) = outbox w"
  by (simp_all add: record_delivery_def)

lemma record_delivery_ids [simp]:
  "map c_id (outreach_campaigns (record_delivery now i r w)) = map c_id (outreach_campaigns w)"
  by (simp add: record_delivery_def update_campaigns_rows comp_def)

lemma record_delivery_status:
  "step_status (record_delivery now i r w) i (if success r then ''sent'' else ''failed'')"
  by (simp add: step_status_def record_delivery_def ball_update_campaigns)

lemma track_contact_frame [simp]:
  "outreach_campaigns (track_contact now i w) = outreach_campaigns w"
  "outbox (track_contact now i w) = outbox w"
  by (simp_all add: track_contact_def Let_def)



lemma filter_map_update:
  assumes one: "filter (\<lambda>y. b_id y = i) bs = [b0]" and keep: "\<And>y. b_id (f y) = b_id y"
  shows "filter (\<lambda>y. b_id y = i) (map (\<lambda>b. if b_id b = i then f b else b) bs) = [f b0]"
proof -
  have "filter (\<lambda>y. b_id y = i) (map (\<lambda>b. if b_id b = i then f b else b) bs)
      = map f (filter (\<lambda>y. b_id y = i) bs)"
    by (induction bs) (simp_all add: keep)
  then show ?thesis
    by (simp add: one)
qed

lemma track_contact_ids:
  "map b_id (brokers (track_contact now i w)) = map b_id (brokers w)"
  by (simp add: track_contact_def Let_def update_brokers_rows comp_def)

lemma track_contact_date:
  "\<forall>x \<in> set (brokers (track_contact now i w)). b_id x = i \<longrightarrow> last_contact_date x = Some (Instant now)"
  by (simp add: track_contact_def Let_def ball_update_brokers)

lemma track_contact_counter:
  assumes one: "filter (\<lambda>y. b_id y = i) (brokers w) = [b0]"
  shows "filter (\<lambda>y. b_id y = i) (brokers (track_contact now i w))
      = [b0 \<lparr> last_contact_date := Some (Instant now),
              total_outreach_attempts := Some (or_zero (total_outreach_attempts b0) + 1) \<rparr>]"
  using filter_map_update [OF one, of "\<lambda>b. b \<lparr> last_contact_date := Some (Instant now),
              total_outreach_attempts := Some (or_zero (total_outreach_attempts b0) + 1) \<rparr>"]
  by (simp add: track_contact_def Let_def one update_brokers_rows)

lemma track_contact_tracked:
  assumes eq: "brokers w1 = brokers w"
  shows "contact_tracked now i w (track_contact now i w1)"
  unfolding contact_tracked_def
  using track_contact_ids [of now i w1] track_contact_date [of now i w1]
    track_contact_counter [of i w1 _ now]
  by (simp add: eq)


lemma deliver_success:
  "success (fst (deliver e a n s t st w)) = delivery_succeeds e w"
  by (simp add: deliver_def delivery_succeeds_def sendgrid_configured_def Let_def
      split: send_outcome.split)

lemma deliver_outbox_live:
  "sendgrid_configured e \<Longrightarrow>
   \<exists>m. outbox (snd (deliver e a n s t st w)) = outbox w @ [m] \<and> to_addr m = a \<and> for_step m = st"
  by (simp add: deliver_def sendgrid_configured_def Let_def split: send_outcome.split)

lemma deliver_outbox_dev:
  "\<not> sendgrid_configured e \<Longrightarrow> outbox (snd (deliver e a n s t st w)) = outbox w"
  by (auto simp: deliver_def sendgrid_configured_def)

lemma contact_addressD:
  "contact_address p = Some a \<Longrightarrow> \<exists>b. p_broker p = Some b \<and> nonempty (email b) = Some a"
  by (cases "p_broker p") (simp_all add: contact_address_def)

lemma process_closed_early:
  assumes "contact_address p = None"
  shows "snd (process_campaign e now p w)
     = close_step (c_id (pc p)) ''failed'' ''Broker has no email address'' w"
proof (cases "p_broker p")
  case None
  then show ?thesis by (simp add: process_campaign_def Let_def)
next
  case (Some b)
  with assms have "nonempty (email b) = None"
    by (simp add: contact_address_def)
  with Some show ?thesis by (simp add: process_campaign_def Let_def)
qed

lemma process_responded:
  assumes "contact_address p = Some a"
    and "broker_status p = Some ''responded'' \<or> broker_status p = Some ''active''"
  shows "snd (process_campaign e now p w)
     = close_step (c_id (pc p)) ''cancelled''
         (''Broker already responded '' @ [CHR 0xE2, CHR 0x80, CHR 0x94]
            @ '' follow-up cancelled'') w"
proof -
  obtain b where b: "p_broker p = Some b" "nonempty (email b) = Some a"
    using contact_addressD [OF assms(1)] by blast
  with assms(2) have "outreach_status b = Some ''responded'' \<or> outreach_status b = Some ''active''"
    by (simp add: broker_status_def)
  with b show ?thesis
    by (auto simp: process_campaign_def Let_def)
qed

lemma process_blacklisted:
  assumes "contact_address p = Some a" and "broker_status p = Some ''blacklisted''"
  shows "snd (process_campaign e now p w)
     = close_step (c_id (pc p)) ''cancelled'' ''Broker is blacklisted'' w"
proof -
  obtain b where b: "p_broker p = Some b" "nonempty (email b) = Some a"
    using contact_addressD [OF assms(1)] by blast
  with assms(2) have "outreach_status b = Some ''blacklisted''"
    by (simp add: broker_status_def)
  with b show ?thesis
    by (simp add: process_campaign_def Let_def)
qed

lemma process_send:
  assumes "contact_address p = Some a"
    and "broker_status p \<noteq> Some ''responded''" "broker_status p \<noteq> Some ''active''"
    and "broker_status p \<noteq> Some ''blacklisted''"
  shows "\<exists>d. d = deliver e a (sender_name (p_carrier p))
                 (if subject (pc p) = [] then ''Following Up'' else subject (pc p))
                 (body_text (pc p)) (Some (pc p)) w
     \<and> snd (process_campaign e now p w) =
         (if success (fst d)
          then track_contact now (c_broker_id (pc p)) (record_delivery now (c_id (pc p)) (fst d) (snd d))
          else record_delivery now (c_id (pc p)) (fst d) (snd d))"
proof -
  obtain b where b: "p_broker p = Some b" "nonempty (email b) = Some a"
    using contact_addressD [OF assms(1)] by blast
  with assms(2-4) have "outreach_status b \<noteq> Some ''responded''"
    "outreach_status b \<noteq> Some ''active''" "outreach_status b \<noteq> Some ''blacklisted''"
    by (simp_all add: broker_status_def)
  with b show ?thesis
    by (simp add: process_campaign_def Let_def split: prod.split)
qed

lemma mentions_no_email: "str_includes ''Broker has no email address'' ''no email''"
  by (simp add: str_includes_def sublist_code)

lemma mentions_already_responded:
  "str_includes (''Broker already responded '' @ [CHR 0xE2, CHR 0x80, CHR 0x94]
                   @ '' follow-up cancelled'') ''already responded''"
  by (simp add: str_includes_def sublist_code)

lemma mentions_blacklisted: "str_includes ''Broker is blacklisted'' ''blacklisted''"
  by (simp add: str_includes_def sublist_code)

lemma process_keeps_rows:
  "map c_id (outreach_campaigns (snd (process_campaign e now p w))) = map c_id (outreach_campaigns w)"
proof (cases "contact_address p")
  case None
  then show ?thesis by (simp add: process_closed_early)
next
  case (Some a)
  consider (r) "broker_status p = Some ''responded'' \<or> broker_status p = Some ''active''"
    | (b) "broker_status p = Some ''blacklisted''"
    | (s) "broker_status p \<noteq> Some ''responded''" "broker_status p \<noteq> Some ''active''"
          "broker_status p \<noteq> Some ''blacklisted''"
    by blast
  then show ?thesis
  proof cases
    case r
    then show ?thesis using Some by (simp add: process_responded)
  next
    case b
    then show ?thesis using Some by (simp add: process_blacklisted)
  next
    case s
    then show ?thesis using process_send [OF Some s, where e = e and now = now and w = w] by auto
  qed
qed

lemma disposition_no_contact:
  assumes "contact_address p = None"
  shows "step_status (snd (process_campaign e now p w)) (c_id (pc p)) ''failed''
     \<and> step_reason (snd (process_campaign e now p w)) (c_id (pc p)) ''no email''
     \<and> outbox (snd (process_campaign e now p w)) = outbox w
     \<and> brokers (snd (process_campaign e now p w)) = brokers w"
  by (simp add: process_closed_early [OF assms] close_step_status close_step_reason
      mentions_no_email)

lemma disposition_responded:
  assumes "contact_address p = Some a"
    and "broker_status p = Some ''responded'' \<or> broker_status p = Some ''active''"
  shows "step_status (snd (process_campaign e now p w)) (c_id (pc p)) ''cancelled''
     \<and> step_reason (snd (process_campaign e now p w)) (c_id (pc p)) ''already responded''
     \<and> outbox (snd (process_campaign e now p w)) = outbox w
     \<and> brokers (snd (process_campaign e now p w)) = brokers w"
  by (simp only: process_responded [OF assms] close_step_status close_step_reason
      mentions_already_responded close_step_frame simp_thms)

lemma disposition_blacklisted:
  assumes "contact_address p = Some a" and "broker_status p = Some ''blacklisted''"
  shows "step_status (snd (process_campaign e now p w)) (c_id (pc p)) ''cancelled''
     \<and> step_reason (snd (process_campaign e now p w)) (c_id (pc p)) ''blacklisted''
     \<and> outbox (snd (process_campaign e now p w)) = outbox w
     \<and> brokers (snd (process_campaign e now p w)) = brokers w"
  by (simp add: process_blacklisted [OF assms] close_step_status close_step_reason
      mentions_blacklisted)

lemma disposition_send:
  assumes "contact_address p = Some a"
    and "broker_status p \<noteq> Some ''responded''" "broker_status p \<noteq> Some ''active''"
    and "broker_status p \<noteq> Some ''blacklisted''"
  shows "(sendgrid_configured e \<longrightarrow>
            (\<exists>m. outbox (snd (process_campaign e now p w)) = outbox w @ [m]
                 \<and> to_addr m = a \<and> for_step m = Some (pc p)))
     \<and> (\<not> sendgrid_configured e \<longrightarrow> outbox (snd (process_campaign e now p w)) = outbox w)
     \<and> (delivery_succeeds e w \<longrightarrow>
            step_status (snd (process_campaign e now p w)) (c_id (pc p)) ''sent''
            \<and> contact_tracked now (c_broker_id (pc p)) w (snd (process_campaign e now p w)))
     \<and> (\<not> delivery_succeeds e w \<longrightarrow>
            step_status (snd (process_campaign e now p w)) (c_id (pc p)) ''failed''
            \<and> brokers (snd (process_campaign e now p w)) = brokers w)"
proof -
  obtain d where d: "d = deliver e a (sender_name (p_carrier p))
                 (if subject (pc p) = [] then ''Following Up'' else subject (pc p))
                 (body_text (pc p)) (Some (pc p)) w"
    and w': "snd (process_campaign e now p w) =
         (if success (fst d)
          then track_contact now (c_broker_id (pc p)) (record_delivery now (c_id (pc p)) (fst d) (snd d))
          else record_delivery now (c_id (pc p)) (fst d) (snd d))"
    using process_send [OF assms] by blast
  have ok: "success (fst d) = delivery_succeeds e w"
    unfolding d by (rule deliver_success)
  have live: "sendgrid_configured e \<Longrightarrow>
      \<exists>m. outbox (snd d) = outbox w @ [m] \<and> to_addr m = a \<and> for_step m = Some (pc p)"
    unfolding d by (rule deliver_outbox_live)
  have dev: "\<not> sendgrid_configured e \<Longrightarrow> outbox (snd d) = outbox w"
    unfolding d by (rule deliver_outbox_dev)
  have br: "brokers (snd d) = brokers w"
    unfolding d by simp
  have out: "outbox (snd (process_campaign e now p w)) = outbox (snd d)"
    by (simp add: w')
  have st: "step_status (record_delivery now (c_id (pc p)) (fst d) (snd d)) (c_id (pc p))
      (if success (fst d) then ''sent'' else ''failed'')"
    by (rule record_delivery_status)
  have sent: "delivery_succeeds e w \<Longrightarrow>
      step_status (snd (process_campaign e now p w)) (c_id (pc p)) ''sent''"
    using st ok by (simp add: w' step_status_def)
  have "brokers (record_delivery now (c_id (pc p)) (fst d) (snd d)) = brokers w"
    using br by simp
  then have "contact_tracked now (c_broker_id (pc p)) w
      (track_contact now (c_broker_id (pc p)) (record_delivery now (c_id (pc p)) (fst d) (snd d)))"
    by (rule track_contact_tracked)
  then have tracked: "delivery_succeeds e w \<Longrightarrow>
      contact_tracked now (c_broker_id (pc p)) w (snd (process_campaign e now p w))"
    using ok by (simp add: w')
  have failed: "\<not> delivery_succeeds e w \<Longrightarrow>
      step_status (snd (process_campaign e now p w)) (c_id (pc p)) ''failed''
      \<and> brokers (snd (process_campaign e now p w)) = brokers w"
    using st ok br by (simp add: w')
  show ?thesis
    using live dev sent tracked failed by (simp add: out)
qed


lemma fetch_pending_due:
  assumes "q \<in> set (fetch_pending now w)"
  shows "pc q \<in> set (outreach_campaigns w) \<and> status (pc q) = ''scheduled''
     \<and> scheduled_at (pc q) \<le> now \<and> q = join_row w (pc q)"
proof -
  from assms have "q \<in> join_row w ` set (take 100 (sort_key scheduled_at
         (filter (\<lambda>c. status c = ''scheduled'' \<and> scheduled_at c \<le> now) (outreach_campaigns w))))"
    by (simp add: fetch_pending_def)
  then obtain c where c: "q = join_row w c"
    and inb: "c \<in> set (take 100 (sort_key scheduled_at
         (filter (\<lambda>c. status c = ''scheduled'' \<and> scheduled_at c \<le> now) (outreach_campaigns w))))"
    by (rule imageE)
  from inb have "c \<in> set (sort_key scheduled_at
         (filter (\<lambda>c. status c = ''scheduled'' \<and> scheduled_at c \<le> now) (outreach_campaigns w)))"
    by (rule in_set_takeD)
  then have "c \<in> set (outreach_campaigns w) \<and> status c = ''scheduled'' \<and> scheduled_at c \<le> now"
    by simp
  then show ?thesis
    using c by (simp add: join_row_def)
qed

text \<open>
  One pass of the loop body on a row \<open>p\<close> and a store \<open>w\<close>: the three guards come
  before the delivery block, in this order, and each closes the step without
  touching the provider or the broker rows; otherwise one message goes to the
  broker's address when credentials are configured, the step becomes \<open>sent\<close> or
  \<open>failed\<close>, and only a successful delivery tracks the contact on the broker.
\<close>

lemma loop_body_disposition:
  "(\<forall>q \<in> set (fetch_pending now w).
       status (pc q) = ''scheduled'' \<and> scheduled_at (pc q) \<le> now \<and> q = join_row w (pc q))
   \<and> follow_up_check e now w = process_all e now (fetch_pending now w) w
   \<and> map c_id (outreach_campaigns (snd (process_campaign e now p w)))
        = map c_id (outreach_campaigns w)
   \<and> (contact_address p = None \<longrightarrow>
        step_status (snd (process_campaign e now p w)) (c_id (pc p)) ''failed''
        \<and> step_reason (snd (process_campaign e now p w)) (c_id (pc p)) ''no email''
        \<and> outbox (snd (process_campaign e now p w)) = outbox w
        \<and> brokers (snd (process_campaign e now p w)) = brokers w)
   \<and> (contact_address p \<noteq> None
        \<and> (broker_status p = Some ''responded'' \<or> broker_status p = Some ''active'') \<longrightarrow>
        step_status (snd (process_campaign e now p w)) (c_id (pc p)) ''cancelled''
        \<and> step_reason (snd (process_campaign e now p w)) (c_id (pc p)) ''already responded''
        \<and> outbox (snd (process_campaign e now p w)) = outbox w
        \<and> brokers (snd (process_campaign e now p w)) = brokers w)
   \<and> (contact_address p \<noteq> None \<and> broker_status p = Some ''blacklisted'' \<longrightarrow>
        step_status (snd (process_campaign e now p w)) (c_id (pc p)) ''cancelled''
        \<and> step_reason (snd (process_campaign e now p w)) (c_id (pc p)) ''blacklisted''
        \<and> outbox (snd (process_campaign e now p w)) = outbox w
        \<and> brokers (snd (process_campaign e now p w)) = brokers w)
   \<and> (contact_address p \<noteq> None \<and> broker_status p \<noteq> Some ''responded''
        \<and> broker_status p \<noteq> Some ''active'' \<and> broker_status p \<noteq> Some ''blacklisted'' \<longrightarrow>
        (sendgrid_configured e \<longrightarrow>
           (\<exists>m. outbox (snd (process_campaign e now p w)) = outbox w @ [m]
                \<and> Some (to_addr m) = contact_address p \<and> for_step m = Some (pc p)))
        \<and> (\<not> sendgrid_configured e \<longrightarrow> outbox (snd (process_campaign e now p w)) = outbox w)
        \<and> (delivery_succeeds e w \<longrightarrow>
             step_status (snd (process_campaign e now p w)) (c_id (pc p)) ''sent''
             \<and> contact_tracked now (c_broker_id (pc p)) w (snd (process_campaign e now p w)))
        \<and> (\<not> delivery_succeeds e w \<longrightarrow>
             step_status (snd (process_campaign e now p w)) (c_id (pc p)) ''failed''
             \<and> brokers (snd (process_campaign e now p w)) = brokers w))"
proof -
  have due: "\<forall>q \<in> set (fetch_pending now w).
       status (pc q) = ''scheduled'' \<and> scheduled_at (pc q) \<le> now \<and> q = join_row w (pc q)"
    using fetch_pending_due by blast
  have sweep: "follow_up_check e now w = process_all e now (fetch_pending now w) w"
    by (simp add: follow_up_check_def)
  have a: "contact_address p = None \<longrightarrow>
        step_status (snd (process_campaign e now p w)) (c_id (pc p)) ''failed''
        \<and> step_reason (snd (process_campaign e now p w)) (c_id (pc p)) ''no email''
        \<and> outbox (snd (process_campaign e now p w)) = outbox w
        \<and> brokers (snd (process_campaign e now p w)) = brokers w"
  proof
    assume h: "contact_address p = None"
    show "step_status (snd (process_campaign e now p w)) (c_id (pc p)) ''failed''
        \<and> step_reason (snd (process_campaign e now p w)) (c_id (pc p)) ''no email''
        \<and> outbox (snd (process_campaign e now p w)) = outbox w
        \<and> brokers (snd (process_campaign e now p w)) = brokers w"
      by (rule disposition_no_contact [OF h])
  qed
  have b: "contact_address p \<noteq> None
        \<and> (broker_status p = Some ''responded'' \<or> broker_status p = Some ''active'') \<longrightarrow>
        step_status (snd (process_campaign e now p w)) (c_id (pc p)) ''cancelled''
        \<and> step_reason (snd (process_campaign e now p w)) (c_id (pc p)) ''already responded''
        \<and> outbox (snd (process_campaign e now p w)) = outbox w
        \<and> brokers (snd (process_campaign e now p w)) = brokers w"
  proof (intro impI, elim conjE)
    assume "contact_address p \<noteq> None"
    then obtain a where a: "contact_address p = Some a" by blast
    assume r: "broker_status p = Some ''responded'' \<or> broker_status p = Some ''active''"
    show "step_status (snd (process_campaign e now p w)) (c_id (pc p)) ''cancelled''
        \<and> step_reason (snd (process_campaign e now p w)) (c_id (pc p)) ''already responded''
        \<and> outbox (snd (process_campaign e now p w)) = outbox w
        \<and> brokers (snd (process_campaign e now p w)) = brokers w"
      by (rule disposition_responded [OF a r])
  qed
  have c: "contact_address p \<noteq> None \<and> broker_status p = Some ''blacklisted'' \<longrightarrow>
        step_status (snd (process_campaign e now p w)) (c_id (pc p)) ''cancelled''
        \<and> step_reason (snd (process_campaign e now p w)) (c_id (pc p)) ''blacklisted''
        \<and> outbox (snd (process_campaign e now p w)) = outbox w
        \<and> brokers (snd (process_campaign e now p w)) = brokers w"
  proof (intro impI, elim conjE)
    assume "contact_address p \<noteq> None"
    then obtain a where a: "contact_address p = Some a" by blast
    assume r: "broker_status p = Some ''blacklisted''"
    show "step_status (snd (process_campaign e now p w)) (c_id (pc p)) ''cancelled''
        \<and> step_reason (snd (process_campaign e now p w)) (c_id (pc p)) ''blacklisted''
        \<and> outbox (snd (process_campaign e now p w)) = outbox w
        \<and> brokers (snd (process_campaign e now p w)) = brokers w"
      by (rule disposition_blacklisted [OF a r])
  qed
  have d: "contact_address p \<noteq> None \<and> broker_status p \<noteq> Some ''responded''
        \<and> broker_status p \<noteq> Some ''active'' \<and> broker_status p \<noteq> Some ''blacklisted'' \<longrightarrow>
        (sendgrid_configured e \<longrightarrow>
           (\<exists>m. outbox (snd (process_campaign e now p w)) = outbox w @ [m]
                \<and> Some (to_addr m) = contact_address p \<and> for_step m = Some (pc p)))
        \<and> (\<not> sendgrid_configured e \<longrightarrow> outbox (snd (process_campaign e now p w)) = outbox w)
        \<and> (delivery_succeeds e w \<longrightarrow>
             step_status (snd (process_campaign e now p w)) (c_id (pc p)) ''sent''
             \<and> contact_tracked now (c_broker_id (pc p)) w (snd (process_campaign e now p w)))
        \<and> (\<not> delivery_succeeds e w \<longrightarrow>
             step_status (snd (process_campaign e now p w)) (c_id (pc p)) ''failed''
             \<and> brokers (snd (process_campaign e now p w)) = brokers w)"
  proof (intro impI, elim conjE)
    assume "contact_address p \<noteq> None"
    then obtain a where a: "contact_address p = Some a" by blast
    assume "broker_status p \<noteq> Some ''responded''" "broker_status p \<noteq> Some ''active''"
      "broker_status p \<noteq> Some ''blacklisted''"
    from disposition_send [OF a this, where e = e and now = now and w = w] show
        "(sendgrid_configured e \<longrightarrow>
           (\<exists>m. outbox (snd (process_campaign e now p w)) = outbox w @ [m]
                \<and> Some (to_addr m) = contact_address p \<and> for_step m = Some (pc p)))
        \<and> (\<not> sendgrid_configured e \<longrightarrow> outbox (snd (process_campaign e now p w)) = outbox w)
        \<and> (delivery_succeeds e w \<longrightarrow>
             step_status (snd (process_campaign e now p w)) (c_id (pc p)) ''sent''
             \<and> contact_tracked now (c_broker_id (pc p)) w (snd (process_campaign e now p w)))
        \<and> (\<not> delivery_succeeds e w \<longrightarrow>
             step_status (snd (process_campaign e now p w)) (c_id (pc p)) ''failed''
             \<and> brokers (snd (process_campaign e now p w)) = brokers w)"
      by (simp add: a)
  qed
  show ?thesis
    using due sweep process_keeps_rows [where e = e and now = now and p = p and w = w] a b c d by (intro conjI)
qed

lemma due_row_simps:
  "c_id (pc (due_row b)) = 2"
  "c_broker_id (pc (due_row b)) = ''b1''"
  "b_id b = ''b1'' \<Longrightarrow> contact_address (due_row b) = nonempty (email b)"
  "b_id b = ''b1'' \<Longrightarrow> broker_status (due_row b) = outreach_status b"
  by (simp_all add: due_row_def join_row_def sample_world_def sample_step_def
      contact_address_def broker_status_def)

lemma sample_env_facts:
  "sendgrid_configured (sample_env True answer)"
  "\<not> sendgrid_configured (sample_env False answer)"
  "delivery_succeeds (sample_env True (Accepted mid)) w"
  "\<not> delivery_succeeds (sample_env True (Rejected err)) w"
  by (simp_all add: sendgrid_configured_def delivery_succeeds_def sample_env_def)

lemma sample_broker_facts:
  "b_id sample_broker = ''b1''"
  "carrier_id sample_broker = ''u1''"
  "email sample_broker = Some ''ops@acme.test''"
  "phone sample_broker = Some ''+15550100''"
  "outreach_status sample_broker = Some ''contacted''"
  "address_state sample_broker = Some ''CA''"
  "total_outreach_attempts sample_broker = Some 1"
  by (simp_all add: sample_broker_def blank_broker_def)

section \<open>What a sweep hands to the provider\<close>

lemma process_outbox:
  "outbox (snd (process_campaign e now p w)) = outbox w
   \<or> (\<exists>m. outbox (snd (process_campaign e now p w)) = outbox w @ [m]
          \<and> for_step m = Some (pc p) \<and> sendable p)"
proof (cases "contact_address p")
  case None
  then show ?thesis using disposition_no_contact by blast
next
  case (Some a)
  consider (r) "broker_status p = Some ''responded'' \<or> broker_status p = Some ''active''"
    | (b) "broker_status p = Some ''blacklisted''"
    | (s) "broker_status p \<noteq> Some ''responded''" "broker_status p \<noteq> Some ''active''"
          "broker_status p \<noteq> Some ''blacklisted''"
    by blast
  then show ?thesis
  proof cases
    case r
    show ?thesis using disposition_responded [OF Some r] by blast
  next
    case b
    show ?thesis using disposition_blacklisted [OF Some b] by blast
  next
    case s
    have ok: "sendable p"
      using Some s by (simp add: sendable_def)
    show ?thesis
    proof (cases "sendgrid_configured e")
      case True
      then show ?thesis
        using disposition_send [OF Some s, where e = e and now = now and w = w] ok by blast
    next
      case False
      then show ?thesis
        using disposition_send [OF Some s, where e = e and now = now and w = w] by blast
    qed
  qed
qed

lemma process_all_step:
  "snd (process_all e now (p # ps) w)
     = snd (process_all e now ps (snd (process_campaign e now p w)))"
  by (simp split: prod.split)

lemma process_all_single:
  "snd (process_all e now [p] w) = snd (process_campaign e now p w)"
  by (simp split: prod.split)

lemma process_all_outbox:
  "\<exists>ms. outbox (snd (process_all e now ps w)) = outbox w @ ms
        \<and> (\<forall>m \<in> set ms. \<exists>p \<in> set ps. for_step m = Some (pc p) \<and> sendable p)
        \<and> subseq (map for_step ms) (map (\<lambda>p. Some (pc p)) ps)"
proof (induction ps arbitrary: w)
  case Nil
  then show ?case by simp
next
  case (Cons p ps)
  define w1 where "w1 = snd (process_campaign e now p w)"
  obtain ms where ms: "outbox (snd (process_all e now ps w1)) = outbox w1 @ ms"
    "\<forall>m \<in> set ms. \<exists>p \<in> set ps. for_step m = Some (pc p) \<and> sendable p"
    "subseq (map for_step ms) (map (\<lambda>p. Some (pc p)) ps)"
    using Cons.IH [of w1] by blast
  have unfold: "snd (process_all e now (p # ps) w) = snd (process_all e now ps w1)"
    by (simp add: w1_def split: prod.split)
  from process_outbox [of e now p w]
  consider (same) "outbox w1 = outbox w"
    | (one) m where "outbox w1 = outbox w @ [m]" "for_step m = Some (pc p)" "sendable p"
    unfolding w1_def by blast
  then show ?case
  proof cases
    case same
    have "outbox (snd (process_all e now (p # ps) w)) = outbox w @ ms"
      using ms(1) same unfold by simp
    moreover have "\<forall>m \<in> set ms. \<exists>q \<in> set (p # ps). for_step m = Some (pc q) \<and> sendable q"
      using ms(2) by auto
    moreover have "subseq (map for_step ms) (map (\<lambda>p. Some (pc p)) (p # ps))"
      using ms(3) by (simp add: list_emb_Cons)
    ultimately show ?thesis by blast
  next
    case one
    have "outbox (snd (process_all e now (p # ps) w)) = outbox w @ (m # ms)"
      using ms(1) one(1) unfold by simp
    moreover have "\<forall>x \<in> set (m # ms). \<exists>q \<in> set (p # ps). for_step x = Some (pc q) \<and> sendable q"
      using ms(2) one(2,3) by auto
    moreover have "subseq (map for_step (m # ms)) (map (\<lambda>p. Some (pc p)) (p # ps))"
      using ms(3) one(2) by simp
    ultimately show ?thesis by blast
  qed
qed

section \<open>A processed step is closed and stays closed\<close>

lemma closed_by_status:
  "step_status w i st \<Longrightarrow> st \<noteq> ''scheduled'' \<Longrightarrow> step_closed w i"
  by (auto simp: step_status_def step_closed_def)

lemma closed_update:
  assumes "\<And>c. P c \<Longrightarrow> status (f c) \<noteq> ''scheduled''" and "\<And>c. c_id (f c) = c_id c"
    and "step_closed w i"
  shows "step_closed (update_campaigns P f w) i"
  using assms by (simp add: step_closed_def ball_update_campaigns)

lemma closed_close_step:
  "st \<noteq> ''scheduled'' \<Longrightarrow> step_closed w i \<Longrightarrow> step_closed (close_step j st msg w) i"
  unfolding close_step_def by (rule closed_update) simp_all

lemma closed_record_delivery:
  "step_closed w i \<Longrightarrow> step_closed (record_delivery now j r w) i"
  unfolding record_delivery_def by (rule closed_update) simp_all

lemma closed_same_rows:
  "outreach_campaigns w' = outreach_campaigns w \<Longrightarrow> step_closed w i \<Longrightarrow> step_closed w' i"
  by (simp add: step_closed_def)

lemma process_keeps_closed:
  assumes "step_closed w i"
  shows "step_closed (snd (process_campaign e now p w)) i"
proof (cases "contact_address p")
  case None
  then show ?thesis
    using assms by (simp add: process_closed_early closed_close_step)
next
  case (Some a)
  consider (r) "broker_status p = Some ''responded'' \<or> broker_status p = Some ''active''"
    | (b) "broker_status p = Some ''blacklisted''"
    | (s) "broker_status p \<noteq> Some ''responded''" "broker_status p \<noteq> Some ''active''"
          "broker_status p \<noteq> Some ''blacklisted''"
    by blast
  then show ?thesis
  proof cases
    case r
    then show ?thesis
      using assms Some by (simp add: process_responded closed_close_step)
  next
    case b
    then show ?thesis
      using assms Some by (simp add: process_blacklisted closed_close_step)
  next
    case s
    obtain d where w': "snd (process_campaign e now p w) =
         (if success (fst d)
          then track_contact now (c_broker_id (pc p)) (record_delivery now (c_id (pc p)) (fst d) (snd d))
          else record_delivery now (c_id (pc p)) (fst d) (snd d))"
      and d: "d = deliver e a (sender_name (p_carrier p))
                 (if subject (pc p) = [] then ''Following Up'' else subject (pc p))
                 (body_text (pc p)) (Some (pc p)) w"
      using process_send [OF Some s, where e = e and now = now and w = w] by blast
    have "step_closed (snd d) i"
      using assms unfolding d by - (rule closed_same_rows, simp_all)
    then have rec: "step_closed (record_delivery now (c_id (pc p)) (fst d) (snd d)) i"
      by (rule closed_record_delivery)
    then have "step_closed (track_contact now (c_broker_id (pc p))
        (record_delivery now (c_id (pc p)) (fst d) (snd d))) i"
      by - (rule closed_same_rows, simp_all)
    with rec show ?thesis
      by (simp add: w')
  qed
qed

lemma process_closes:
  "step_closed (snd (process_campaign e now p w)) (c_id (pc p))"
proof (cases "contact_address p")
  case None
  have "step_status (snd (process_campaign e now p w)) (c_id (pc p)) ''failed''"
    using disposition_no_contact [OF None, where e = e and now = now and w = w] by blast
  then show ?thesis by (rule closed_by_status) simp
next
  case (Some a)
  consider (r) "broker_status p = Some ''responded'' \<or> broker_status p = Some ''active''"
    | (b) "broker_status p = Some ''blacklisted''"
    | (s) "broker_status p \<noteq> Some ''responded''" "broker_status p \<noteq> Some ''active''"
          "broker_status p \<noteq> Some ''blacklisted''"
    by blast
  then show ?thesis
  proof cases
    case r
    have "step_status (snd (process_campaign e now p w)) (c_id (pc p)) ''cancelled''"
      using disposition_responded [OF Some r, where e = e and now = now and w = w] by blast
    then show ?thesis by (rule closed_by_status) simp
  next
    case b
    have "step_status (snd (process_campaign e now p w)) (c_id (pc p)) ''cancelled''"
      using disposition_blacklisted [OF Some b, where e = e and now = now and w = w] by blast
    then show ?thesis by (rule closed_by_status) simp
  next
    case s
    show ?thesis
    proof (cases "delivery_succeeds e w")
      case True
      then have "step_status (snd (process_campaign e now p w)) (c_id (pc p)) ''sent''"
        using disposition_send [OF Some s, where e = e and now = now and w = w] by blast
      then show ?thesis by (rule closed_by_status) simp
    next
      case False
      then have "step_status (snd (process_campaign e now p w)) (c_id (pc p)) ''failed''"
        using disposition_send [OF Some s, where e = e and now = now and w = w] by blast
      then show ?thesis by (rule closed_by_status) simp
    qed
  qed
qed

lemma process_all_keeps_closed:
  "step_closed w i \<Longrightarrow> step_closed (snd (process_all e now ps w)) i"
proof (induction ps arbitrary: w)
  case Nil
  then show ?case by simp
next
  case (Cons p ps)
  have "step_closed (snd (process_campaign e now p w)) i"
    using Cons.prems by (rule process_keeps_closed)
  then have "step_closed (snd (process_all e now ps (snd (process_campaign e now p w)))) i"
    by (rule Cons.IH)
  then show ?case
    by (simp only: process_all_step)
qed

lemma process_all_closes:
  "p \<in> set ps \<Longrightarrow> step_closed (snd (process_all e now ps w)) (c_id (pc p))"
proof (induction ps arbitrary: w)
  case Nil
  then show ?case by simp
next
  case (Cons q ps)
  have unfold: "snd (process_all e now (q # ps) w)
      = snd (process_all e now ps (snd (process_campaign e now q w)))"
    by (rule process_all_step)
  show ?case
  proof (cases "p = q")
    case True
    have "step_closed (snd (process_campaign e now q w)) (c_id (pc q))"
      by (rule process_closes)
    then show ?thesis
      unfolding unfold True by (rule process_all_keeps_closed)
  next
    case False
    with Cons.prems have "p \<in> set ps" by simp
    then show ?thesis
      unfolding unfold by (rule Cons.IH)
  qed
qed

lemma process_all_rows:
  "map c_id (outreach_campaigns (snd (process_all e now ps w))) = map c_id (outreach_campaigns w)"
proof (induction ps arbitrary: w)
  case Nil
  then show ?case by simp
next
  case (Cons p ps)
  show ?case
    using Cons.IH [of "snd (process_campaign e now p w)"]
      process_keeps_rows [where e = e and now = now and p = p and w = w]
    by (simp only: process_all_step)
qed

section \<open>Sweeps, one after the other\<close>

lemma fetched_not_closed:
  assumes "p \<in> set (fetch_pending now w)"
  shows "\<not> step_closed w (c_id (pc p))"
proof -
  have "pc p \<in> set (outreach_campaigns w)" "status (pc p) = ''scheduled''"
    using fetch_pending_due [OF assms] by simp_all
  then show ?thesis
    by (auto simp: step_closed_def)
qed

lemma sweep_outbox:
  "\<exists>ms. outbox (snd (follow_up_check e now w)) = outbox w @ ms
        \<and> (\<forall>m \<in> set ms. \<exists>p \<in> set (fetch_pending now w). for_step m = Some (pc p) \<and> sendable p)
        \<and> subseq (map for_step ms) (map (\<lambda>p. Some (pc p)) (fetch_pending now w))"
  unfolding follow_up_check_def by (rule process_all_outbox)

lemma new_dispatches_append: "outbox w' = outbox w @ ms \<Longrightarrow> new_dispatches w w' = ms"
  by (simp add: new_dispatches_def)

lemma sweep_skips_closed:
  assumes "step_closed w i"
  shows "Some i \<notin> set (dispatched_ids (new_dispatches w (snd (follow_up_check e now w))))"
proof
  assume bad: "Some i \<in> set (dispatched_ids (new_dispatches w (snd (follow_up_check e now w))))"
  obtain ms where ms: "outbox (snd (follow_up_check e now w)) = outbox w @ ms"
    "\<forall>m \<in> set ms. \<exists>p \<in> set (fetch_pending now w). for_step m = Some (pc p) \<and> sendable p"
    using sweep_outbox [of e now w] by blast
  from bad have "Some i \<in> (\<lambda>m. map_option c_id (for_step m)) ` set ms"
    by (simp add: dispatched_ids_def new_dispatches_append [OF ms(1)])
  then obtain m where m: "Some i = map_option c_id (for_step m)" "m \<in> set ms"
    by (rule imageE)
  then obtain p where p: "p \<in> set (fetch_pending now w)" "for_step m = Some (pc p)"
    using ms(2) by blast
  with m(1) have "c_id (pc p) = i" by simp
  with fetched_not_closed [OF p(1)] assms show False by simp
qed

lemma sweep_keeps_closed:
  "step_closed w i \<Longrightarrow> step_closed (snd (follow_up_check e now w)) i"
  unfolding follow_up_check_def by (rule process_all_keeps_closed)

lemma sweep_closes:
  "p \<in> set (fetch_pending now w) \<Longrightarrow> step_closed (snd (follow_up_check e now w)) (c_id (pc p))"
  unfolding follow_up_check_def by (rule process_all_closes)

lemma sweep_rows:
  "map c_id (outreach_campaigns (snd (follow_up_check e now w))) = map c_id (outreach_campaigns w)"
  unfolding follow_up_check_def by (rule process_all_rows)

lemma run_sweeps_outbox: "\<exists>ms. outbox (run_sweeps l w) = outbox w @ ms"
proof (induction l arbitrary: w)
  case Nil
  then show ?case by simp
next
  case (Cons a l)
  obtain e now where a: "a = (e, now)" by (cases a)
  obtain ms1 where ms1: "outbox (snd (follow_up_check e now w)) = outbox w @ ms1"
    using sweep_outbox [of e now w] by blast
  obtain ms2 where "outbox (run_sweeps l (snd (follow_up_check e now w)))
      = outbox (snd (follow_up_check e now w)) @ ms2"
    using Cons.IH by blast
  then show ?case
    using ms1 by (simp add: a)
qed

lemma new_dispatches_split:
  assumes "outbox w1 = outbox w @ ms1" and "outbox w2 = outbox w1 @ ms2"
  shows "new_dispatches w w2 = new_dispatches w w1 @ new_dispatches w1 w2"
  using assms by (simp add: new_dispatches_def)

lemma run_sweeps_split:
  "new_dispatches w (run_sweeps ((e, now) # l) w)
     = new_dispatches w (snd (follow_up_check e now w))
       @ new_dispatches (snd (follow_up_check e now w))
           (run_sweeps l (snd (follow_up_check e now w)))"
proof -
  obtain ms1 where ms1: "outbox (snd (follow_up_check e now w)) = outbox w @ ms1"
    using sweep_outbox [of e now w] by blast
  obtain ms2 where ms2: "outbox (run_sweeps l (snd (follow_up_check e now w)))
      = outbox (snd (follow_up_check e now w)) @ ms2"
    using run_sweeps_outbox by blast
  show ?thesis
    using new_dispatches_split [OF ms1 ms2] by simp
qed

lemma run_sweeps_skip_closed:
  "step_closed w i \<Longrightarrow> Some i \<notin> set (dispatched_ids (new_dispatches w (run_sweeps l w)))"
proof (induction l arbitrary: w)
  case Nil
  then show ?case by (simp add: new_dispatches_def dispatched_ids_def)
next
  case (Cons a l)
  obtain e now where a: "a = (e, now)" by (cases a)
  have 1: "Some i \<notin> set (dispatched_ids (new_dispatches w (snd (follow_up_check e now w))))"
    using Cons.prems by (rule sweep_skips_closed)
  have "step_closed (snd (follow_up_check e now w)) i"
    using Cons.prems by (rule sweep_keeps_closed)
  then have 2: "Some i \<notin> set (dispatched_ids (new_dispatches (snd (follow_up_check e now w))
      (run_sweeps l (snd (follow_up_check e now w)))))"
    by (rule Cons.IH)
  show ?case
    using 1 2 unfolding a run_sweeps_split by (simp add: dispatched_ids_def)
qed

lemma subseq_members: "subseq xs ys \<Longrightarrow> set xs \<subseteq> set ys"
  by (induction rule: list_emb.induct) auto

lemma subseq_keeps_distinct: "subseq xs ys \<Longrightarrow> distinct ys \<Longrightarrow> distinct xs"
proof (induction rule: list_emb.induct)
  case (list_emb_Nil ys)
  then show ?case by simp
next
  case (list_emb_Cons xs ys y)
  then show ?case by simp
next
  case (list_emb_Cons2 x y xs ys)
  then have "x \<notin> set xs"
    using subseq_members [of xs ys] by auto
  with list_emb_Cons2 show ?case by simp
qed

lemma fetch_distinct:
  assumes "distinct (map c_id (outreach_campaigns w))"
  shows "distinct (map (\<lambda>p. Some (c_id (pc p))) (fetch_pending now w))"
proof -
  let ?due = "filter (\<lambda>c. status c = ''scheduled'' \<and> scheduled_at c \<le> now) (outreach_campaigns w)"
  have "distinct (map c_id ?due)"
    using assms by (rule distinct_map_filter)
  then have d: "distinct ?due" and inj: "inj_on c_id (set ?due)"
    by (simp_all add: distinct_map)
  have "distinct (sort_key scheduled_at ?due)" "inj_on c_id (set (sort_key scheduled_at ?due))"
    using d inj by simp_all
  then have "distinct (take 100 (sort_key scheduled_at ?due))"
    "inj_on c_id (set (take 100 (sort_key scheduled_at ?due)))"
    using inj_on_subset [OF _ set_take_subset, of c_id "sort_key scheduled_at ?due" 100]
    by simp_all
  then have "distinct (map c_id (take 100 (sort_key scheduled_at ?due)))"
    by (simp add: distinct_map)
  then have "distinct (map Some (map c_id (take 100 (sort_key scheduled_at ?due))))"
    by (subst distinct_map) (simp add: inj_on_def)
  moreover have "map (\<lambda>p. Some (c_id (pc p))) (fetch_pending now w)
      = map Some (map c_id (take 100 (sort_key scheduled_at ?due)))"
    by (simp add: fetch_pending_def join_row_def comp_def)
  ultimately show ?thesis by simp
qed

lemma sweep_distinct:
  assumes "distinct (map c_id (outreach_campaigns w))"
  shows "distinct (dispatched_ids (new_dispatches w (snd (follow_up_check e now w))))"
proof -
  obtain ms where ms: "outbox (snd (follow_up_check e now w)) = outbox w @ ms"
    "subseq (map for_step ms) (map (\<lambda>p. Some (pc p)) (fetch_pending now w))"
    using sweep_outbox [of e now w] by blast
  have "subseq (map (map_option c_id) (map for_step ms))
      (map (map_option c_id) (map (\<lambda>p. Some (pc p)) (fetch_pending now w)))"
    using ms(2) by (rule subseq_map)
  then have "subseq (dispatched_ids ms) (map (\<lambda>p. Some (c_id (pc p))) (fetch_pending now w))"
    by (simp add: dispatched_ids_def comp_def)
  then have "distinct (dispatched_ids ms)"
    using fetch_distinct [OF assms] by (rule subseq_keeps_distinct)
  then show ?thesis
    by (simp add: new_dispatches_append [OF ms(1)])
qed

lemma sweep_dispatches_closed:
  assumes "x \<in> set (dispatched_ids (new_dispatches w (snd (follow_up_check e now w))))"
  shows "\<exists>i. x = Some i \<and> step_closed (snd (follow_up_check e now w)) i"
proof -
  obtain ms where ms: "outbox (snd (follow_up_check e now w)) = outbox w @ ms"
    "\<forall>m \<in> set ms. \<exists>p \<in> set (fetch_pending now w). for_step m = Some (pc p) \<and> sendable p"
    using sweep_outbox [of e now w] by blast
  from assms have "x \<in> (\<lambda>m. map_option c_id (for_step m)) ` set ms"
    by (simp add: dispatched_ids_def new_dispatches_append [OF ms(1)])
  then obtain m where m: "x = map_option c_id (for_step m)" "m \<in> set ms"
    by (rule imageE)
  then obtain p where p: "p \<in> set (fetch_pending now w)" "for_step m = Some (pc p)"
    using ms(2) by blast
  then show ?thesis
    using m(1) sweep_closes [OF p(1)] by auto
qed

lemma run_sweeps_distinct:
  "distinct (map c_id (outreach_campaigns w)) \<Longrightarrow>
   distinct (dispatched_ids (new_dispatches w (run_sweeps l w)))"
proof (induction l arbitrary: w)
  case Nil
  then show ?case by (simp add: new_dispatches_def dispatched_ids_def)
next
  case (Cons a l)
  obtain e now where a: "a = (e, now)" by (cases a)
  let ?w1 = "snd (follow_up_check e now w)"
  have d1: "distinct (dispatched_ids (new_dispatches w ?w1))"
    using Cons.prems by (rule sweep_distinct)
  have "distinct (map c_id (outreach_campaigns ?w1))"
    using Cons.prems by (simp add: sweep_rows)
  then have d2: "distinct (dispatched_ids (new_dispatches ?w1 (run_sweeps l ?w1)))"
    by (rule Cons.IH)
  have disj: "set (dispatched_ids (new_dispatches w ?w1))
      \<inter> set (dispatched_ids (new_dispatches ?w1 (run_sweeps l ?w1))) = {}"
  proof (rule ccontr)
    assume "\<not> ?thesis"
    then obtain x where x: "x \<in> set (dispatched_ids (new_dispatches w ?w1))"
      "x \<in> set (dispatched_ids (new_dispatches ?w1 (run_sweeps l ?w1)))"
      by blast
    obtain i where i: "x = Some i" "step_closed ?w1 i"
      using sweep_dispatches_closed [OF x(1)] by blast
    show False
      using run_sweeps_skip_closed [OF i(2), of l] x(2) i(1) by simp
  qed
  have "dispatched_ids (new_dispatches w (run_sweeps (a # l) w))
      = dispatched_ids (new_dispatches w ?w1)
        @ dispatched_ids (new_dispatches ?w1 (run_sweeps l ?w1))"
    unfolding a run_sweeps_split by (simp add: dispatched_ids_def)
  then show ?case
    using d1 d2 disj by simp
qed

lemma live_dispatch_ids:
  assumes "sendable p" and "sendgrid_configured e"
  shows "dispatched_ids (outbox (snd (process_campaign e now p w)))
     = dispatched_ids (outbox w) @ [Some (c_id (pc p))]"
proof -
  obtain a where a: "contact_address p = Some a"
    using assms(1) by (auto simp: sendable_def)
  have s: "broker_status p \<noteq> Some ''responded''" "broker_status p \<noteq> Some ''active''"
    "broker_status p \<noteq> Some ''blacklisted''"
    using assms(1) by (simp_all add: sendable_def)
  obtain m where "outbox (snd (process_campaign e now p w)) = outbox w @ [m]"
    "for_step m = Some (pc p)"
    using disposition_send [OF a s, where e = e and now = now and w = w] assms(2) by blast
  then show ?thesis
    by (simp add: dispatched_ids_def)
qed

lemma fetch_sample:
  "fetch_pending 500 (sample_world b [sample_step 2 2 ''scheduled'' 100]) = [due_row b]"
  by (simp add: fetch_pending_def due_row_def sample_world_def sample_step_def)

text \<open>
  C4 as stated fails for overlapping invocations: the handler fetches its batch and
  only then processes it, and nothing marks a step as taken in between. When two
  invocations have both fetched the same due step before either processes it, each
  hands it to the provider: the same step is dispatched twice.
\<close>

theorem C4_overlap_counterexample:
  "dispatched_ids (outbox (snd
      (process_all (sample_env True (Accepted ''m1'')) 500
         (fetch_pending 500 (sample_world sample_broker [sample_step 2 2 ''scheduled'' 100]))
         (snd (process_all (sample_env True (Accepted ''m1'')) 500
            (fetch_pending 500 (sample_world sample_broker [sample_step 2 2 ''scheduled'' 100]))
            (sample_world sample_broker [sample_step 2 2 ''scheduled'' 100]))))))
   = [Some 2, Some 2]"
proof -
  let ?e = "sample_env True (Accepted ''m1'')"
  let ?w = "sample_world sample_broker [sample_step 2 2 ''scheduled'' 100]"
  let ?p = "due_row sample_broker"
  have p: "sendable ?p" "c_id (pc ?p) = 2"
    by (simp_all add: sendable_def due_row_simps sample_broker_facts nonempty_def)
  have e: "sendgrid_configured ?e"
    by (rule sample_env_facts)
  have one: "\<And>w. dispatched_ids (outbox (snd (process_all ?e 500 [?p] w)))
      = dispatched_ids (outbox w) @ [Some 2]"
    unfolding process_all_single
    using live_dispatch_ids [OF p(1) e, where now = 500] by (simp add: p(2))
  have "dispatched_ids (outbox ?w) = []"
    by (simp add: dispatched_ids_def sample_world_def)
  then show ?thesis
    by (simp only: fetch_sample one append_Nil append_Cons)
qed

text \<open>
  C4, amended: invocations of the sweep that run one after the other never dispatch
  a step twice. Every step an invocation fetches is closed (no longer \<open>scheduled\<close>)
  when that invocation ends, and no later invocation hands it to the provider; with
  unique campaign ids, the dispatches of any sequence of invocations are for
  pairwise different steps. Nothing is claimed for overlapping invocations.
\<close>

theorem C4_sequential_sweeps:
  "(\<forall>p \<in> set (fetch_pending now w).
       step_closed (snd (follow_up_check e now w)) (c_id (pc p))
       \<and> Some (c_id (pc p)) \<notin> set (dispatched_ids
             (new_dispatches (snd (follow_up_check e now w))
                (run_sweeps later (snd (follow_up_check e now w))))))
   \<and> (distinct (map c_id (outreach_campaigns w)) \<longrightarrow>
        distinct (dispatched_ids (new_dispatches w (run_sweeps sweeps w))))"
proof (intro conjI ballI impI)
  fix p assume p: "p \<in> set (fetch_pending now w)"
  show closed: "step_closed (snd (follow_up_check e now w)) (c_id (pc p))"
    using p by (rule sweep_closes)
  show "Some (c_id (pc p)) \<notin> set (dispatched_ids
             (new_dispatches (snd (follow_up_check e now w))
                (run_sweeps later (snd (follow_up_check e now w)))))"
    using closed by (rule run_sweeps_skip_closed)
next
  assume "distinct (map c_id (outreach_campaigns w))"
  then show "distinct (dispatched_ids (new_dispatches w (run_sweeps sweeps w)))"
    by (rule run_sweeps_distinct)
qed

theorem C4_sequential_sweeps_witness:
  "step_closed (snd (follow_up_check (sample_env True (Accepted ''m1'')) 500
       (sample_world sample_broker [sample_step 2 2 ''scheduled'' 100]))) 2
   \<and> Some 2 \<notin> set (dispatched_ids
         (new_dispatches
            (snd (follow_up_check (sample_env True (Accepted ''m1'')) 500
               (sample_world sample_broker [sample_step 2 2 ''scheduled'' 100])))
            (run_sweeps [(sample_env True (Accepted ''m2''), 600),
                         (sample_env True (Accepted ''m3''), 700)]
               (snd (follow_up_check (sample_env True (Accepted ''m1'')) 500
                  (sample_world sample_broker [sample_step 2 2 ''scheduled'' 100]))))))
   \<and> distinct (dispatched_ids
         (new_dispatches (sample_world sample_broker [sample_step 2 2 ''scheduled'' 100])
            (run_sweeps [(sample_env True (Accepted ''m1''), 500),
                         (sample_env True (Accepted ''m2''), 600)]
               (sample_world sample_broker [sample_step 2 2 ''scheduled'' 100]))))"
  using C4_sequential_sweeps [of 500 "sample_world sample_broker [sample_step 2 2 ''scheduled'' 100]"
      "sample_env True (Accepted ''m1'')"
      "[(sample_env True (Accepted ''m2''), 600), (sample_env True (Accepted ''m3''), 700)]"
      "[(sample_env True (Accepted ''m1''), 500), (sample_env True (Accepted ''m2''), 600)]"]
  by (simp add: fetch_sample due_row_simps) (simp add: sample_world_def sample_step_def)

section \<open>The whole sweep\<close>

lemma process_all_append:
  "snd (process_all e now (xs @ ys) w)
     = snd (process_all e now ys (snd (process_all e now xs w)))"
proof (induction xs arbitrary: w)
  case Nil
  then show ?case by simp
next
  case (Cons x xs)
  have "snd (process_all e now ((x # xs) @ ys) w)
      = snd (process_all e now (xs @ ys) (snd (process_campaign e now x w)))"
    by (simp only: append_Cons process_all_step)
  then show ?case
    by (simp only: Cons.IH process_all_step)
qed
















lemma sweep_dispatch:
  assumes f: "fetch_pending now w = before @ q # after"
    and ok: "sendable q" and live: "sendgrid_configured e"
  shows "Some (c_id (pc q)) \<in> set (dispatched_ids (new_dispatches w (snd (follow_up_check e now w))))"
proof -
  let ?w1 = "snd (process_all e now before w)"
  let ?w2 = "snd (process_campaign e now q ?w1)"
  have W: "snd (follow_up_check e now w) = snd (process_all e now after ?w2)"
    by (simp only: follow_up_check_def f process_all_append process_all_step)
  obtain ms1 where ms1: "outbox ?w1 = outbox w @ ms1"
    using process_all_outbox [of e now before w] by blast
  have "dispatched_ids (outbox ?w2) = dispatched_ids (outbox ?w1) @ [Some (c_id (pc q))]"
    using ok live by (rule live_dispatch_ids)
  moreover obtain ms3 where ms3: "outbox (snd (process_all e now after ?w2)) = outbox ?w2 @ ms3"
    using process_all_outbox [of e now after ?w2] by blast
  ultimately have "dispatched_ids (outbox (snd (follow_up_check e now w)))
      = dispatched_ids (outbox w) @ dispatched_ids ms1 @ [Some (c_id (pc q))] @ dispatched_ids ms3"
    using ms1 by (simp add: W dispatched_ids_def)
  then have "dispatched_ids (new_dispatches w (snd (follow_up_check e now w)))
      = dispatched_ids ms1 @ [Some (c_id (pc q))] @ dispatched_ids ms3"
    by (simp add: new_dispatches_def dispatched_ids_def drop_map [symmetric])
  then show ?thesis by simp
qed










lemma sample_ids:
  "map c_id (outreach_campaigns (sample_world b [sample_step 2 2 ''scheduled'' 100])) = [2]"
  "map c_id (outreach_campaigns (sample_world b [sample_step 2 2 ''scheduled'' 100,
      sample_step 3 3 ''scheduled'' 200])) = [2, 3]"
  "brokers (sample_world b cs) = [b]"
  by (simp_all add: sample_world_def sample_step_def)


section \<open>Properties of \<open>send-initial\<close>\<close>

lemma insert_campaign_frame [simp]:
  "brokers (snd (insert_campaign c w)) = brokers w"
  "outbox (snd (insert_campaign c w)) = outbox w"
  "calls (snd (insert_campaign c w)) = calls w"
  "carrier_profiles (snd (insert_campaign c w)) = carrier_profiles w"
  "email_templates (snd (insert_campaign c w)) = email_templates w"
  by (simp_all add: insert_campaign_def Let_def)

lemma insert_campaign_rows:
  "outreach_campaigns (snd (insert_campaign c w)) = outreach_campaigns w @ [c \<lparr> c_id := next_id w \<rparr>]"
  "fst (insert_campaign c w) = c \<lparr> c_id := next_id w \<rparr>"
  "next_id (snd (insert_campaign c w)) = Suc (next_id w)"
  by (simp_all add: insert_campaign_def Let_def)

lemma insert_follow_ups_frame [simp]:
  "brokers (insert_follow_ups e now u i p c b ts w) = brokers w"
  "outbox (insert_follow_ups e now u i p c b ts w) = outbox w"
  "calls (insert_follow_ups e now u i p c b ts w) = calls w"
  by (induction ts arbitrary: w) simp_all

lemma follow_up_row_fields:
  "sequence_step (follow_up_row e now u i p c b t) = t_sequence_step t"
  "status (follow_up_row e now u i p c b t) = ''scheduled''"
  "parent_campaign_id (follow_up_row e now u i p c b t) = Some p"
  "c_broker_id (follow_up_row e now u i p c b t) = i"
  "c_carrier_id (follow_up_row e now u i p c b t) = u"
  by (simp_all add: follow_up_row_def)

lemma insert_follow_ups_rows:
  "\<exists>rows. outreach_campaigns (insert_follow_ups e now u i p c b ts w) = outreach_campaigns w @ rows
      \<and> map (\<lambda>r. (sequence_step r, status r, parent_campaign_id r, c_broker_id r, c_carrier_id r)) rows
          = map (\<lambda>t. (t_sequence_step t, ''scheduled'', Some p, i, u)) ts"
proof (induction ts arbitrary: w)
  case Nil
  then show ?case by simp
next
  case (Cons t ts)
  obtain rows where rows:
    "outreach_campaigns (insert_follow_ups e now u i p c b ts
        (snd (insert_campaign (follow_up_row e now u i p c b t) w)))
      = outreach_campaigns (snd (insert_campaign (follow_up_row e now u i p c b t) w)) @ rows"
    "map (\<lambda>r. (sequence_step r, status r, parent_campaign_id r, c_broker_id r, c_carrier_id r)) rows
          = map (\<lambda>t. (t_sequence_step t, ''scheduled'', Some p, i, u)) ts"
    using Cons.IH by blast
  show ?case
    by (rule exI [of _ "(follow_up_row e now u i p c b t) \<lparr> c_id := next_id w \<rparr> # rows"])
       (simp add: rows insert_campaign_rows follow_up_row_fields)
qed

lemma scheduleFollowUps_frame [simp]:
  "brokers (scheduleFollowUps e now u i p c b w) = brokers w"
  "outbox (scheduleFollowUps e now u i p c b w) = outbox w"
  "calls (scheduleFollowUps e now u i p c b w) = calls w"
  by (simp_all add: scheduleFollowUps_def)

text \<open>The run of \<open>send-initial\<close> past its five early returns.\<close>

lemma send_initial_run:
  assumes "nonempty bid = Some i" "select_carrier w u = Some c" "select_broker w i u = Some b"
    "nonempty (email b) = Some a" "single (step1_records w i u) = None"
    "select_template w ''initial_outreach'' u = Some t"
  shows "send_initial e now u bid w =
    (let subj = fillTemplate e (subject_template t) c b;
         bodyText = fillTemplate e (body_template t) c b;
         d = deliver e a (sender_name (Some c)) subj bodyText None w;
         row = (initial_row now u i subj bodyText (fst d)) \<lparr> c_id := next_id w \<rparr>;
         w3 = update_brokers (\<lambda>x. b_id x = i) (contacted now b)
                (snd (insert_campaign (initial_row now u i subj bodyText (fst d)) (snd d)))
     in (Inr \<lparr> si_success = success (fst d), si_campaign = row \<rparr>,
         if success (fst d) then scheduleFollowUps e now u i (next_id w) c b w3 else w3))"
  using assms
  by (simp add: send_initial_def Let_def split_def insert_campaign_rows)

lemma send_initial_stops:
  "nonempty bid = None \<or> select_carrier w u = None
   \<or> (\<exists>i. nonempty bid = Some i \<and>
         (select_broker w i u = None
          \<or> (\<exists>b. select_broker w i u = Some b \<and>
                (nonempty (email b) = None \<or> single (step1_records w i u) \<noteq> None
                 \<or> select_template w ''initial_outreach'' u = None))))
   \<Longrightarrow> snd (send_initial e now u bid w) = w"
  by (auto simp: send_initial_def split: option.splits)

lemma selected_broker_stored:
  "select_broker w i u = Some b \<Longrightarrow> b \<in> set (brokers w) \<and> b_id b = i \<and> carrier_id b = u"
proof -
  assume a: "select_broker w i u = Some b"
  have "\<And>xs. single xs = Some b \<Longrightarrow> xs = [b]"
    by (erule single.elims) simp_all
  then have "filter (\<lambda>b. b_id b = i \<and> carrier_id b = u) (brokers w) = [b]"
    using a by (simp add: select_broker_def)
  then have "b \<in> set (filter (\<lambda>b. b_id b = i \<and> carrier_id b = u) (brokers w))"
    by simp
  then show ?thesis by simp
qed

lemma initial_row_fields:
  "sequence_step (initial_row now u i subj bodyText r) = 1"
  "status (initial_row now u i subj bodyText r) = (if success r then ''sent'' else ''failed'')"
  "c_broker_id (initial_row now u i subj bodyText r) = i"
  "c_carrier_id (initial_row now u i subj bodyText r) = u"
  by (simp_all add: initial_row_def)

lemma send_initial_brokers:
  assumes "nonempty bid = Some i" "select_carrier w u = Some c" "select_broker w i u = Some b"
    "nonempty (email b) = Some a" "single (step1_records w i u) = None"
    "select_template w ''initial_outreach'' u = Some t"
  shows "brokers (snd (send_initial e now u bid w))
     = map (\<lambda>x. if b_id x = i then contacted now b x else x) (brokers w)"
  by (simp add: send_initial_run [OF assms] Let_def update_brokers_rows)

lemma send_initial_result:
  assumes "nonempty bid = Some i" "select_carrier w u = Some c" "select_broker w i u = Some b"
    "nonempty (email b) = Some a" "single (step1_records w i u) = None"
    "select_template w ''initial_outreach'' u = Some t"
  shows "\<exists>ok. fst (send_initial e now u bid w) = Inr ok
      \<and> si_success ok = delivery_succeeds e w
      \<and> c_id (si_campaign ok) = next_id w
      \<and> c_broker_id (si_campaign ok) = i \<and> c_carrier_id (si_campaign ok) = u
      \<and> sequence_step (si_campaign ok) = 1
      \<and> status (si_campaign ok) = (if delivery_succeeds e w then ''sent'' else ''failed'')
      \<and> (\<exists>rows. outreach_campaigns (snd (send_initial e now u bid w))
                  = outreach_campaigns w @ si_campaign ok # rows
             \<and> map (\<lambda>r. (sequence_step r, status r, parent_campaign_id r, c_broker_id r, c_carrier_id r)) rows
                  = (if delivery_succeeds e w
                     then map (\<lambda>t. (t_sequence_step t, ''scheduled'', Some (next_id w), i, u))
                            (follow_up_templates w)
                     else []))"
proof (cases "delivery_succeeds e w")
  case True
  let ?subj = "fillTemplate e (subject_template t) c b"
  let ?body = "fillTemplate e (body_template t) c b"
  let ?d = "deliver e a (sender_name (Some c)) ?subj ?body None w"
  let ?w3 = "update_brokers (\<lambda>x. b_id x = i) (contacted now b)
                (snd (insert_campaign (initial_row now u i ?subj ?body (fst ?d)) (snd ?d)))"
  have ft: "follow_up_templates ?w3 = follow_up_templates w"
    by (simp add: follow_up_templates_def)
  obtain rows where rows:
    "outreach_campaigns (insert_follow_ups e now u i (next_id w) c b (follow_up_templates w) ?w3)
       = outreach_campaigns ?w3 @ rows"
    "map (\<lambda>r. (sequence_step r, status r, parent_campaign_id r, c_broker_id r, c_carrier_id r)) rows
       = map (\<lambda>t. (t_sequence_step t, ''scheduled'', Some (next_id w), i, u)) (follow_up_templates w)"
    using insert_follow_ups_rows by blast
  show ?thesis
    using True rows
    by (simp add: send_initial_run [OF assms] Let_def deliver_success scheduleFollowUps_def ft
        insert_campaign_rows initial_row_fields)
next
  case False
  then show ?thesis
    by (simp add: send_initial_run [OF assms] Let_def deliver_success
        insert_campaign_rows initial_row_fields)
qed

section \<open>\<open>send-initial\<close> and the broker record\<close>

text \<open>
  C10, as stated, fails on a store that already holds a step-1 record of the pair
  and on a store without the \<open>initial_outreach\<close> template: validation passes
  (carrier profile, broker and e-mail address are there), the handler answers 409
  or 500, and the broker record is as before.
\<close>

theorem C10_early_return_counterexample:
  "select_carrier (sample_world sample_broker [sample_step 1 1 ''sent'' 50]) ''u1''
     = Some sample_carrier
   \<and> select_broker (sample_world sample_broker [sample_step 1 1 ''sent'' 50]) ''b1'' ''u1''
     = Some sample_broker
   \<and> nonempty (email sample_broker) = Some ''ops@acme.test''
   \<and> is_conflict (fst (send_initial (sample_env True (Accepted ''m1'')) 500 ''u1'' (Some ''b1'')
        (sample_world sample_broker [sample_step 1 1 ''sent'' 50])))
   \<and> brokers (snd (send_initial (sample_env True (Accepted ''m1'')) 500 ''u1'' (Some ''b1'')
        (sample_world sample_broker [sample_step 1 1 ''sent'' 50]))) = [sample_broker]
   \<and> last_contact_date sample_broker = None
   \<and> total_outreach_attempts sample_broker = Some 1
   \<and> select_carrier ((sample_world sample_broker []) \<lparr> email_templates := [] \<rparr>) ''u1''
     = Some sample_carrier
   \<and> select_broker ((sample_world sample_broker []) \<lparr> email_templates := [] \<rparr>) ''b1'' ''u1''
     = Some sample_broker
   \<and> fst (send_initial (sample_env True (Accepted ''m1'')) 500 ''u1'' (Some ''b1'')
        ((sample_world sample_broker []) \<lparr> email_templates := [] \<rparr>))
     = Inl (UpstreamError ''Initial outreach template not found'')
   \<and> brokers (snd (send_initial (sample_env True (Accepted ''m1'')) 500 ''u1'' (Some ''b1'')
        ((sample_world sample_broker []) \<lparr> email_templates := [] \<rparr>))) = [sample_broker]"
  by (simp add: send_initial_def select_carrier_def select_broker_def step1_records_def
      select_template_def sample_world_def sample_broker_def blank_broker_def sample_carrier_def
      sample_step_def nonempty_def is_conflict_def)

text \<open>
  C10, amended: when \<open>send-initial\<close> passes validation, finds no single step-1
  record of the pair and finds the \<open>initial_outreach\<close> template, every broker row
  with the requested id is rewritten with \<open>outreach_status = contacted\<close>,
  \<open>last_contact_date = now\<close>, \<open>first_contact_date\<close> kept when present and set to
  \<open>now\<close> otherwise, and \<open>total_outreach_attempts\<close> one above the selected broker's
  (an absent counter counts as 0), and the selected broker is among these rows;
  this holds whether the delivery succeeds or fails. The step-1 record is inserted
  with status \<open>sent\<close> or \<open>failed\<close> accordingly, and the follow-up steps, one per
  default follow-up template, are inserted only when the delivery succeeds.
\<close>

theorem C10_broker_contacted:
  "nonempty bid = Some i \<and> select_carrier w u = Some c \<and> select_broker w i u = Some b
   \<and> nonempty (email b) = Some a \<and> single (step1_records w i u) = None
   \<and> select_template w ''initial_outreach'' u = Some t \<longrightarrow>
     brokers (snd (send_initial e now u bid w))
       = map (\<lambda>x. if b_id x = i
                  then x \<lparr> outreach_status := Some ''contacted'',
                           last_contact_date := Some (Instant now),
                           first_contact_date :=
                             (case first_contact_date b of
                                None \<Rightarrow> Some (Instant now) | Some d \<Rightarrow> Some d),
                           total_outreach_attempts :=
                             Some (or_zero (total_outreach_attempts b) + 1) \<rparr>
                  else x) (brokers w)
     \<and> b \<in> set (brokers w) \<and> b_id b = i
     \<and> (\<exists>ok. fst (send_initial e now u bid w) = Inr ok
          \<and> si_success ok = delivery_succeeds e w
          \<and> sequence_step (si_campaign ok) = 1
          \<and> status (si_campaign ok) = (if delivery_succeeds e w then ''sent'' else ''failed'')
          \<and> (\<exists>rows. outreach_campaigns (snd (send_initial e now u bid w))
                      = outreach_campaigns w @ si_campaign ok # rows
                 \<and> map (\<lambda>r. (sequence_step r, status r, parent_campaign_id r)) rows
                      = (if delivery_succeeds e w
                         then map (\<lambda>t. (t_sequence_step t, ''scheduled'', Some (c_id (si_campaign ok))))
                                (follow_up_templates w)
                         else [])))"
proof (intro impI, elim conjE)
  assume h: "nonempty bid = Some i" "select_carrier w u = Some c" "select_broker w i u = Some b"
    "nonempty (email b) = Some a" "single (step1_records w i u) = None"
    "select_template w ''initial_outreach'' u = Some t"
  have br: "brokers (snd (send_initial e now u bid w))
       = map (\<lambda>x. if b_id x = i
                  then x \<lparr> outreach_status := Some ''contacted'',
                           last_contact_date := Some (Instant now),
                           first_contact_date :=
                             (case first_contact_date b of
                                None \<Rightarrow> Some (Instant now) | Some d \<Rightarrow> Some d),
                           total_outreach_attempts :=
                             Some (or_zero (total_outreach_attempts b) + 1) \<rparr>
                  else x) (brokers w)"
    by (simp add: send_initial_brokers [OF h] contacted_def)
  have st: "b \<in> set (brokers w) \<and> b_id b = i"
    using selected_broker_stored [OF h(3)] by simp
  obtain ok rows where ok: "fst (send_initial e now u bid w) = Inr ok"
      "si_success ok = delivery_succeeds e w" "c_id (si_campaign ok) = next_id w"
      "sequence_step (si_campaign ok) = 1"
      "status (si_campaign ok) = (if delivery_succeeds e w then ''sent'' else ''failed'')"
      "outreach_campaigns (snd (send_initial e now u bid w))
                  = outreach_campaigns w @ si_campaign ok # rows"
      "map (\<lambda>r. (sequence_step r, status r, parent_campaign_id r, c_broker_id r, c_carrier_id r)) rows
                  = (if delivery_succeeds e w
                     then map (\<lambda>t. (t_sequence_step t, ''scheduled'', Some (next_id w), i, u))
                            (follow_up_templates w)
                     else [])"
    using send_initial_result [OF h, of e now] by blast
  have "map (\<lambda>r. (sequence_step r, status r, parent_campaign_id r)) rows
      = map (\<lambda>q. (fst q, fst (snd q), fst (snd (snd q))))
          (map (\<lambda>r. (sequence_step r, status r, parent_campaign_id r, c_broker_id r, c_carrier_id r)) rows)"
    by simp
  also have "\<dots> = (if delivery_succeeds e w
         then map (\<lambda>t. (t_sequence_step t, ''scheduled'', Some (c_id (si_campaign ok))))
                (follow_up_templates w)
         else [])"
    by (simp only: ok(7)) (simp add: ok(3))
  finally have rows: "map (\<lambda>r. (sequence_step r, status r, parent_campaign_id r)) rows
      = (if delivery_succeeds e w
         then map (\<lambda>t. (t_sequence_step t, ''scheduled'', Some (c_id (si_campaign ok))))
                (follow_up_templates w)
         else [])" .
  have res: "\<exists>ok. fst (send_initial e now u bid w) = Inr ok
          \<and> si_success ok = delivery_succeeds e w
          \<and> sequence_step (si_campaign ok) = 1
          \<and> status (si_campaign ok) = (if delivery_succeeds e w then ''sent'' else ''failed'')
          \<and> (\<exists>rows. outreach_campaigns (snd (send_initial e now u bid w))
                      = outreach_campaigns w @ si_campaign ok # rows
                 \<and> map (\<lambda>r. (sequence_step r, status r, parent_campaign_id r)) rows
                      = (if delivery_succeeds e w
                         then map (\<lambda>t. (t_sequence_step t, ''scheduled'', Some (c_id (si_campaign ok))))
                                (follow_up_templates w)
                         else []))"
    using ok(1,2,4,5,6) rows by blast
  show "brokers (snd (send_initial e now u bid w))
       = map (\<lambda>x. if b_id x = i
                  then x \<lparr> outreach_status := Some ''contacted'',
                           last_contact_date := Some (Instant now),
                           first_contact_date :=
                             (case first_contact_date b of
                                None \<Rightarrow> Some (Instant now) | Some d \<Rightarrow> Some d),
                           total_outreach_attempts :=
                             Some (or_zero (total_outreach_attempts b) + 1) \<rparr>
                  else x) (brokers w)
     \<and> b \<in> set (brokers w) \<and> b_id b = i
     \<and> (\<exists>ok. fst (send_initial e now u bid w) = Inr ok
          \<and> si_success ok = delivery_succeeds e w
          \<and> sequence_step (si_campaign ok) = 1
          \<and> status (si_campaign ok) = (if delivery_succeeds e w then ''sent'' else ''failed'')
          \<and> (\<exists>rows. outreach_campaigns (snd (send_initial e now u bid w))
                      = outreach_campaigns w @ si_campaign ok # rows
                 \<and> map (\<lambda>r. (sequence_step r, status r, parent_campaign_id r)) rows
                      = (if delivery_succeeds e w
                         then map (\<lambda>t. (t_sequence_step t, ''scheduled'', Some (c_id (si_campaign ok))))
                                (follow_up_templates w)
                         else [])))"
    using br st res by (intro conjI) (simp_all only: simp_thms)
qed

lemma sample_store_facts:
  "select_carrier (sample_world b cs) ''u1'' = Some sample_carrier"
  "b_id b = ''b1'' \<Longrightarrow> carrier_id b = ''u1'' \<Longrightarrow> select_broker (sample_world b cs) ''b1'' ''u1'' = Some b"
  "select_template (sample_world b cs) ''initial_outreach'' ''u1''
     = Some (sample_template ''initial_outreach'' ''initial'' 1 0)"
  "map t_sequence_step (follow_up_templates (sample_world b cs)) = [2, 3]"
  "step1_records (sample_world b []) i u = []"
  "outreach_campaigns (sample_world b cs) = cs"
  "calls (sample_world b cs) = []"
  "outbox (sample_world b cs) = []"
  "delivery_succeeds (sample_env False answer) w"
  by (simp_all add: select_carrier_def select_broker_def select_template_def
      follow_up_templates_def sample_world_def sample_carrier_def sample_template_def
      step1_records_def delivery_succeeds_def sendgrid_configured_def sample_env_def)

lemma statuses_after_send:
  assumes "\<exists>ok. fst R = Inr ok \<and> si_success ok = d \<and> sequence_step (si_campaign ok) = 1
      \<and> status (si_campaign ok) = (if d then ''sent'' else ''failed'')
      \<and> (\<exists>rows. cs = cs0 @ si_campaign ok # rows
            \<and> map (\<lambda>r. (sequence_step r, status r, parent_campaign_id r)) rows
                = (if d then map (\<lambda>t. (t_sequence_step t, ''scheduled'', Some (c_id (si_campaign ok)))) ts
                   else []))"
  shows "map (\<lambda>r. (sequence_step r, status r)) cs
      = map (\<lambda>r. (sequence_step r, status r)) cs0
        @ (if d then (1, ''sent'') # map (\<lambda>n. (n, ''scheduled'')) (map t_sequence_step ts)
           else [(1, ''failed'')])"
  using assms
proof (elim exE conjE)
  fix ok rows
  assume ok: "sequence_step (si_campaign ok) = 1"
      "status (si_campaign ok) = (if d then ''sent'' else ''failed'')"
      "cs = cs0 @ si_campaign ok # rows"
      "map (\<lambda>r. (sequence_step r, status r, parent_campaign_id r)) rows
         = (if d then map (\<lambda>t. (t_sequence_step t, ''scheduled'', Some (c_id (si_campaign ok)))) ts
            else [])"
  have "map (\<lambda>r. (sequence_step r, status r)) rows
      = map (\<lambda>q. (fst q, fst (snd q)))
          (map (\<lambda>r. (sequence_step r, status r, parent_campaign_id r)) rows)"
    by simp
  also have "\<dots> = (if d then map (\<lambda>n. (n, ''scheduled'')) (map t_sequence_step ts) else [])"
    by (simp only: ok(4)) simp
  finally show ?thesis
    using ok(1,2) by (simp add: ok(3))
qed

theorem C10_broker_contacted_witness:
  "brokers (snd (send_initial (sample_env True (Rejected ''bounce'')) 500 ''u1'' (Some ''b1'')
        (sample_world sample_broker [])))
     = [sample_broker \<lparr> outreach_status := Some ''contacted'',
                         last_contact_date := Some (Instant 500),
                         first_contact_date := Some (Instant 500),
                         total_outreach_attempts := Some 2 \<rparr>]
   \<and> map (\<lambda>r. (sequence_step r, status r))
        (outreach_campaigns (snd (send_initial (sample_env True (Rejected ''bounce'')) 500 ''u1''
           (Some ''b1'') (sample_world sample_broker []))))
     = [(1, ''failed'')]
   \<and> brokers (snd (send_initial (sample_env True (Accepted ''m1'')) 500 ''u1'' (Some ''b1'')
        (sample_world sample_broker [])))
     = [sample_broker \<lparr> outreach_status := Some ''contacted'',
                         last_contact_date := Some (Instant 500),
                         first_contact_date := Some (Instant 500),
                         total_outreach_attempts := Some 2 \<rparr>]
   \<and> map (\<lambda>r. (sequence_step r, status r))
        (outreach_campaigns (snd (send_initial (sample_env True (Accepted ''m1'')) 500 ''u1''
           (Some ''b1'') (sample_world sample_broker []))))
     = [(1, ''sent''), (2, ''scheduled''), (3, ''scheduled'')]"
proof -
  let ?w = "sample_world sample_broker []"
  let ?t = "sample_template ''initial_outreach'' ''initial'' 1 0"
  let ?no = "sample_env True (Rejected ''bounce'')"
  let ?ok = "sample_env True (Accepted ''m1'')"
  have hyp: "nonempty (Some ''b1'') = Some ''b1'' \<and> select_carrier ?w ''u1'' = Some sample_carrier
      \<and> select_broker ?w ''b1'' ''u1'' = Some sample_broker
      \<and> nonempty (email sample_broker) = Some ''ops@acme.test''
      \<and> single (step1_records ?w ''b1'' ''u1'') = None
      \<and> select_template ?w ''initial_outreach'' ''u1'' = Some ?t"
    by (simp add: sample_store_facts sample_broker_facts nonempty_def)
  have first: "first_contact_date sample_broker = None"
    by (simp add: sample_broker_def blank_broker_def)
  note run_no = C10_broker_contacted [where bid = "Some ''b1''" and i = "''b1''" and w = ?w
      and u = "''u1''" and c = sample_carrier and b = sample_broker and a = "''ops@acme.test''"
      and t = ?t and now = 500 and e = ?no, THEN mp, OF hyp]
  note run_ok = C10_broker_contacted [where bid = "Some ''b1''" and i = "''b1''" and w = ?w
      and u = "''u1''" and c = sample_carrier and b = sample_broker and a = "''ops@acme.test''"
      and t = ?t and now = 500 and e = ?ok, THEN mp, OF hyp]
  have b1: "brokers (snd (send_initial ?no 500 ''u1'' (Some ''b1'') ?w))
       = [sample_broker \<lparr> outreach_status := Some ''contacted'',
                         last_contact_date := Some (Instant 500),
                         first_contact_date := Some (Instant 500),
                         total_outreach_attempts := Some 2 \<rparr>]"
    by (simp add: run_no [THEN conjunct1] sample_ids sample_broker_facts first
        or_zero_def)
  have b2: "brokers (snd (send_initial ?ok 500 ''u1'' (Some ''b1'') ?w))
       = [sample_broker \<lparr> outreach_status := Some ''contacted'',
                         last_contact_date := Some (Instant 500),
                         first_contact_date := Some (Instant 500),
                         total_outreach_attempts := Some 2 \<rparr>]"
    by (simp add: run_ok [THEN conjunct1] sample_ids sample_broker_facts first
        or_zero_def)
  have c1: "map (\<lambda>r. (sequence_step r, status r))
          (outreach_campaigns (snd (send_initial ?no 500 ''u1'' (Some ''b1'') ?w)))
        = [(1, ''failed'')]"
    using statuses_after_send [OF run_no [THEN conjunct2, THEN conjunct2, THEN conjunct2]]
    by (simp add: sample_store_facts sample_env_facts)
  have c2: "map (\<lambda>r. (sequence_step r, status r))
          (outreach_campaigns (snd (send_initial ?ok 500 ''u1'' (Some ''b1'') ?w)))
        = [(1, ''sent''), (2, ''scheduled''), (3, ''scheduled'')]"
    using statuses_after_send [OF run_ok [THEN conjunct2, THEN conjunct2, THEN conjunct2]]
    by (simp add: sample_store_facts sample_env_facts)
  show ?thesis
    using b1 c1 b2 c2 by (intro conjI)
qed

section \<open>Voice calls and the ComplianceWindow\<close>

lemma falsy_iff_not_truthy: "falsy_str x = (\<not> truthy_str x)"
  by (cases x) simp_all

lemma initiate_calls_placed:
  assumes "twilio_configured e" "nonempty bid = Some i" "select_carrier w u = Some c"
    "select_broker w i u = Some b" "nonempty (phone b) = Some n"
  shows "calls (snd (initiate e now u bid w))
     = calls w @ [\<lparr> call_to = n, call_from = or_str (TWILIO_FROM_NUMBER e) [],
                     call_script = generateCallScript e c b \<rparr>]"
  using assms
  by (simp add: initiate_def twilio_configured_def falsy_iff_not_truthy Let_def split_def
      split: call_outcome.split)

lemma initiate_calls_kept:
  assumes "\<not> (twilio_configured e \<and> (\<exists>i c b n. nonempty bid = Some i \<and> select_carrier w u = Some c
      \<and> select_broker w i u = Some b \<and> nonempty (phone b) = Some n))"
  shows "calls (snd (initiate e now u bid w)) = calls w"
  using assms
  by (auto simp: initiate_def twilio_configured_def falsy_iff_not_truthy Let_def split_def
      split: option.splits call_outcome.splits)

lemma initiate_outbox: "outbox (snd (initiate e now u bid w)) = outbox w"
  by (simp add: initiate_def Let_def split_def split: option.splits call_outcome.splits)

lemma send_initial_outbox:
  assumes "nonempty bid = Some i" "select_carrier w u = Some c" "select_broker w i u = Some b"
    "nonempty (email b) = Some a" "single (step1_records w i u) = None"
    "select_template w ''initial_outreach'' u = Some t"
    and live: "sendgrid_configured e"
  shows "\<exists>m. outbox (snd (send_initial e now u bid w)) = outbox w @ [m] \<and> to_addr m = a"
proof -
  have "outbox (snd (send_initial e now u bid w))
      = outbox (snd (deliver e a (sender_name (Some c)) (fillTemplate e (subject_template t) c b)
                  (fillTemplate e (body_template t) c b) None w))"
    by (simp add: send_initial_run [OF assms(1-6)] Let_def)
  then show ?thesis
    using deliver_outbox_live [OF live, of a "sender_name (Some c)"
        "fillTemplate e (subject_template t) c b" "fillTemplate e (body_template t) c b" None w]
    by auto
qed

text \<open>
  C5, as stated, fails: at 3 o'clock Pacific time \<open>canCallNow\<close> does not allow a
  call to a California broker, and \<open>initiate\<close>, which reads neither the clock
  nor the broker's region, places the call.
\<close>

theorem C5_ungated_call_counterexample:
  "address_state sample_broker = Some ''CA''
   \<and> \<not> allowed (canCallNow (\<lambda>s. s) (\<lambda>tz. (3, 0)) ''CA'')
   \<and> fst (initiate (sample_env True (Accepted ''m1'')) 500 ''u1'' (Some ''b1'')
        (sample_world sample_broker []))
     = Inr \<lparr> dev_mode = False, call_sid = Some ''CA1'' \<rparr>
   \<and> calls (snd (initiate (sample_env True (Accepted ''m1'')) 500 ''u1'' (Some ''b1'')
        (sample_world sample_broker [])))
     = [\<lparr> call_to = ''+15550100'', call_from = ''+15550199'',
          call_script = ''Hi, may I speak with dispatch?'' \<rparr>]"
proof -
  have "\<not> allowed (canCallNow (\<lambda>s. s) (\<lambda>tz. (3, 0)) ''CA'')"
    by (simp add: canCallNow_by_region)
  moreover have "fst (initiate (sample_env True (Accepted ''m1'')) 500 ''u1'' (Some ''b1'')
        (sample_world sample_broker []))
     = Inr \<lparr> dev_mode = False, call_sid = Some ''CA1'' \<rparr>
   \<and> calls (snd (initiate (sample_env True (Accepted ''m1'')) 500 ''u1'' (Some ''b1'')
        (sample_world sample_broker [])))
     = [\<lparr> call_to = ''+15550100'', call_from = ''+15550199'',
          call_script = ''Hi, may I speak with dispatch?'' \<rparr>]"
    by (simp add: initiate_def select_carrier_def select_broker_def sample_world_def
        sample_broker_def blank_broker_def sample_carrier_def sample_env_def nonempty_def
        or_str_def insert_campaign_def split_def Let_def)
  ultimately show ?thesis
    by (simp add: sample_broker_facts)
qed

text \<open>
  C5, amended: \<open>initiate\<close> does not consult the ComplianceWindow. With the three
  Twilio settings configured, the call to the broker's phone number is handed to
  the provider whenever the request names a broker, the carrier profile and the
  broker are found and the broker has a phone number; the log of placed calls
  changes in exactly that case, so the decision depends on nothing else, neither on
  the broker's region nor on the time. E-mail sends are not gated by the
  ComplianceWindow either: with SendGrid configured, \<open>send-initial\<close> past its
  early returns hands its message to the provider, and the sweep hands over every
  fetched step whose broker passes the three guards.
\<close>

theorem C5_call_without_window_check:
  "(twilio_configured e \<and> nonempty bid = Some i \<and> select_carrier w u = Some c
      \<and> select_broker w i u = Some b \<and> nonempty (phone b) = Some n \<longrightarrow>
      calls (snd (initiate e now u bid w))
        = calls w @ [\<lparr> call_to = n, call_from = or_str (TWILIO_FROM_NUMBER e) [],
                        call_script = generateCallScript e c b \<rparr>])
   \<and> ((calls (snd (initiate e now u bid w)) \<noteq> calls w)
        = (twilio_configured e
           \<and> (\<exists>i c b n. nonempty bid = Some i \<and> select_carrier w u = Some c
                 \<and> select_broker w i u = Some b \<and> nonempty (phone b) = Some n)))
   \<and> outbox (snd (initiate e now u bid w)) = outbox w
   \<and> (sendgrid_configured e \<and> nonempty bid = Some i \<and> select_carrier w u = Some c
        \<and> select_broker w i u = Some b \<and> nonempty (email b) = Some a
        \<and> single (step1_records w i u) = None
        \<and> select_template w ''initial_outreach'' u = Some t \<longrightarrow>
        (\<exists>m. outbox (snd (send_initial e now u bid w)) = outbox w @ [m] \<and> to_addr m = a))
   \<and> (sendgrid_configured e \<and> fetch_pending now w = before @ q # after \<and> sendable q \<longrightarrow>
        Some (c_id (pc q))
          \<in> set (dispatched_ids (new_dispatches w (snd (follow_up_check e now w)))))"
proof -
  have placed: "twilio_configured e \<and> nonempty bid = Some i \<and> select_carrier w u = Some c
      \<and> select_broker w i u = Some b \<and> nonempty (phone b) = Some n \<longrightarrow>
      calls (snd (initiate e now u bid w))
        = calls w @ [\<lparr> call_to = n, call_from = or_str (TWILIO_FROM_NUMBER e) [],
                        call_script = generateCallScript e c b \<rparr>]"
    using initiate_calls_placed by blast
  have iff: "(calls (snd (initiate e now u bid w)) \<noteq> calls w)
        = (twilio_configured e
           \<and> (\<exists>i c b n. nonempty bid = Some i \<and> select_carrier w u = Some c
                 \<and> select_broker w i u = Some b \<and> nonempty (phone b) = Some n))"
  proof (cases "twilio_configured e
           \<and> (\<exists>i c b n. nonempty bid = Some i \<and> select_carrier w u = Some c
                 \<and> select_broker w i u = Some b \<and> nonempty (phone b) = Some n)")
    case True
    then obtain i c b n where "twilio_configured e" "nonempty bid = Some i"
        "select_carrier w u = Some c" "select_broker w i u = Some b" "nonempty (phone b) = Some n"
      by blast
    then have "calls (snd (initiate e now u bid w))
        = calls w @ [\<lparr> call_to = n, call_from = or_str (TWILIO_FROM_NUMBER e) [],
                        call_script = generateCallScript e c b \<rparr>]"
      by (rule initiate_calls_placed)
    then show ?thesis
      using True by simp
  next
    case False
    then have "calls (snd (initiate e now u bid w)) = calls w"
      by (rule initiate_calls_kept)
    then show ?thesis
      using False by simp
  qed
  have mail: "sendgrid_configured e \<and> nonempty bid = Some i \<and> select_carrier w u = Some c
        \<and> select_broker w i u = Some b \<and> nonempty (email b) = Some a
        \<and> single (step1_records w i u) = None
        \<and> select_template w ''initial_outreach'' u = Some t \<longrightarrow>
        (\<exists>m. outbox (snd (send_initial e now u bid w)) = outbox w @ [m] \<and> to_addr m = a)"
    using send_initial_outbox by blast
  have sweep: "sendgrid_configured e \<and> fetch_pending now w = before @ q # after \<and> sendable q \<longrightarrow>
        Some (c_id (pc q))
          \<in> set (dispatched_ids (new_dispatches w (snd (follow_up_check e now w))))"
    using sweep_dispatch by blast
  show ?thesis
    using placed iff initiate_outbox [of e now u bid w] mail sweep by (intro conjI)
qed

theorem C5_call_without_window_check_witness:
  "\<not> allowed (canCallNow (\<lambda>s. s) (\<lambda>tz. (23, 30)) ''CA'')
   \<and> calls (snd (initiate (sample_env True (Accepted ''m1'')) 500 ''u1'' (Some ''b1'')
        (sample_world sample_broker [])))
     = [\<lparr> call_to = ''+15550100'', call_from = ''+15550199'',
          call_script = ''Hi, may I speak with dispatch?'' \<rparr>]
   \<and> calls (snd (initiate (sample_env False (Accepted ''m1'')) 500 ''u1'' (Some ''b1'')
        (sample_world sample_broker []))) = []
   \<and> (\<exists>m. outbox (snd (send_initial (sample_env True (Accepted ''m1'')) 500 ''u1'' (Some ''b1'')
        (sample_world sample_broker []))) = [m] \<and> to_addr m = ''ops@acme.test'')
   \<and> Some 2 \<in> set (dispatched_ids (new_dispatches
        (sample_world sample_broker [sample_step 2 2 ''scheduled'' 100])
        (snd (follow_up_check (sample_env True (Accepted ''m1'')) 500
           (sample_world sample_broker [sample_step 2 2 ''scheduled'' 100])))))"
proof -
  let ?w = "sample_world sample_broker []"
  let ?w2 = "sample_world sample_broker [sample_step 2 2 ''scheduled'' 100]"
  let ?t = "sample_template ''initial_outreach'' ''initial'' 1 0"
  let ?ok = "sample_env True (Accepted ''m1'')"
  let ?dev = "sample_env False (Accepted ''m1'')"
  have late: "\<not> allowed (canCallNow (\<lambda>s. s) (\<lambda>tz. (23, 30)) ''CA'')"
    by (simp add: canCallNow_by_region)
  have tw: "twilio_configured ?ok" "\<not> twilio_configured ?dev"
      "or_str (TWILIO_FROM_NUMBER ?ok) [] = ''+15550199''"
      "generateCallScript ?ok sample_carrier sample_broker = ''Hi, may I speak with dispatch?''"
    by (simp_all add: twilio_configured_def sample_env_def or_str_def)
  note live = C5_call_without_window_check [where e = ?ok and bid = "Some ''b1''" and i = "''b1''"
      and w = ?w and u = "''u1''" and c = sample_carrier and b = sample_broker
      and n = "''+15550100''" and a = "''ops@acme.test''" and t = ?t and now = 500]
  have call: "calls (snd (initiate ?ok 500 ''u1'' (Some ''b1'') ?w))
     = [\<lparr> call_to = ''+15550100'', call_from = ''+15550199'',
          call_script = ''Hi, may I speak with dispatch?'' \<rparr>]"
    using live [THEN conjunct1]
    by (simp add: tw sample_store_facts sample_broker_facts nonempty_def)
  have mail: "\<exists>m. outbox (snd (send_initial ?ok 500 ''u1'' (Some ''b1'') ?w)) = [m]
      \<and> to_addr m = ''ops@acme.test''"
    using live [THEN conjunct2, THEN conjunct2, THEN conjunct2, THEN conjunct1]
    by (simp add: sample_env_facts sample_store_facts sample_broker_facts nonempty_def)
  have dev: "calls (snd (initiate ?dev 500 ''u1'' (Some ''b1'') ?w)) = []"
    using C5_call_without_window_check [where e = ?dev and bid = "Some ''b1''" and w = ?w
      and u = "''u1''" and now = 500, THEN conjunct2, THEN conjunct1]
    by (simp add: tw sample_store_facts)
  have sweep: "Some 2 \<in> set (dispatched_ids (new_dispatches ?w2
        (snd (follow_up_check ?ok 500 ?w2))))"
    using C5_call_without_window_check [where e = ?ok and w = ?w2 and now = 500
      and before = "[]" and q = "due_row sample_broker" and after = "[]",
      THEN conjunct2, THEN conjunct2, THEN conjunct2, THEN conjunct2]
    by (simp add: sample_env_facts fetch_sample sendable_def due_row_simps sample_broker_facts
        nonempty_def)
  show ?thesis
    using late call dev mail sweep by (intro conjI)
qed

section \<open>\<open>send-initial\<close> and the step-1 record of a pair\<close>












section \<open>Properties of \<open>mark-responded\<close>\<close>









section \<open>A recorded reply and the remaining follow-ups\<close>




end
